theory Spec2Isabelle
  imports Main "HOL-Library.Sublist"
begin

section \<open>Python values\<close>

text \<open>
  A Python \<open>str\<close> is modelled as a \<open>string\<close> whose characters stand for code points
  below 256. A parsed JSON document is a \<open>jvalue\<close>; a Python \<open>dict\<close> with string keys
  is an association list read with \<open>map_of\<close>. A float is kept as its literal text (the
  program never computes with one).
\<close>

datatype jvalue =
    JNull
  | JBool bool
  | JInt int
  | JFloat string
  | JStr string
  | JArr "jvalue list"
  | JObj "(string \<times> jvalue) list"

text \<open>The object \<open>requests\<close> hands back for a completed HTTP exchange: \<open>resp_text\<close> is
  \<open>resp.text\<close>, and \<open>json\<close> is what \<open>resp.json()\<close> does: \<open>Inl m\<close> when the body is
  not JSON (a decode error with message \<open>m\<close>), \<open>Inr v\<close> for the parsed value.\<close>

record response =
  status_code :: nat
  reason :: string
  url :: string
  resp_text :: string
  json :: "string + jvalue"

text \<open>The exceptions of the program. \<open>HTTPError\<close> carries its message and its
  \<open>response\<close> attribute, which Python allows to be \<open>None\<close>. All the others are
  exceptions that are not \<open>requests.HTTPError\<close>: \<open>RequestException\<close> stands for a
  connection failure or a timeout raised by \<open>requests.post\<close>/\<open>requests.get\<close>.\<close>

datatype exn =
    HTTPError string "response option"
  | RequestException string
  | JSONDecodeError string
  | KeyError string
  | TypeError string
  | AttributeError string

definition quote :: string where
  "quote = [CHR 0x27]"

fun str_exn :: "exn \<Rightarrow> string" where
  "str_exn (HTTPError m r) = m"
| "str_exn (RequestException m) = m"
| "str_exn (JSONDecodeError m) = m"
| "str_exn (KeyError k) = quote @ k @ quote"
| "str_exn (TypeError m) = m"
| "str_exn (AttributeError m) = m"

fun is_HTTPError :: "exn \<Rightarrow> bool" where
  "is_HTTPError (HTTPError m r) = True"
| "is_HTTPError e = False"

section \<open>The outside world\<close>

text \<open>An outbound call as the program issues it: \<open>requests.post(url, data=..., timeout=...)\<close>
  and \<open>requests.get(url, headers=..., timeout=...)\<close>; and what comes of it: a response,
  whatever its status, or an exception (no connection, timeout).\<close>

datatype request =
    Post string "(string \<times> string option) list" nat
  | Get string "(string \<times> string) list" nat

datatype outcome = Returns response | Fails string

text \<open>Everything the handlers read from outside: the process environment
  (\<open>os.getenv\<close>), the two network calls, and Python's \<open>str()\<close> of a parsed JSON value
  that is not itself a string (used when a token is interpolated into a header).\<close>

record world =
  environ :: "string \<Rightarrow> string option"
  requests_post :: "string \<Rightarrow> (string \<times> string option) list \<Rightarrow> nat \<Rightarrow> outcome"
  requests_get :: "string \<Rightarrow> (string \<times> string) list \<Rightarrow> nat \<Rightarrow> outcome"
  str_value :: "jvalue \<Rightarrow> string"

text \<open>What of a URL string goes out on the wire. \<open>requests\<close> does not percent-encode a
  \<open>#\<close>: it reads everything from the first \<open>#\<close> on as the fragment, which an HTTP
  client keeps to itself. The query component is what follows the first \<open>?\<close>.\<close>

definition sent_url :: "string \<Rightarrow> string" where
  "sent_url u = takeWhile (\<lambda>c. c \<noteq> CHR ''#'') u"

definition url_query :: "string \<Rightarrow> string" where
  "url_query u = (case dropWhile (\<lambda>c. c \<noteq> CHR ''?'') u of [] \<Rightarrow> [] | c # cs \<Rightarrow> cs)"

type_synonym trace = "(request \<times> outcome) list"

text \<open>A computation returns a value or raises, and leaves the list of network calls it
  made, each with its outcome, in the order made.\<close>

type_synonym 'a comp = "(exn + 'a) \<times> trace"

definition return :: "'a \<Rightarrow> 'a comp" where
  "return x = (Inr x, [])"

definition lift :: "exn + 'a \<Rightarrow> 'a comp" where
  "lift r = (r, [])"

definition bind :: "'a comp \<Rightarrow> ('a \<Rightarrow> 'b comp) \<Rightarrow> 'b comp" where
  "bind m f =
     (case m of
        (Inl e, t) \<Rightarrow> (Inl e, t)
      | (Inr x, t) \<Rightarrow> (case f x of (r, t') \<Rightarrow> (r, t @ t')))"

definition post :: "world \<Rightarrow> string \<Rightarrow> (string \<times> string option) list \<Rightarrow> nat \<Rightarrow> response comp" where
  "post w u d t =
     (case requests_post w u d t of
        Returns r \<Rightarrow> (Inr r, [(Post u d t, Returns r)])
      | Fails m \<Rightarrow> (Inl (RequestException m), [(Post u d t, Fails m)]))"

definition get :: "world \<Rightarrow> string \<Rightarrow> (string \<times> string) list \<Rightarrow> nat \<Rightarrow> response comp" where
  "get w u h t =
     (case requests_get w u h t of
        Returns r \<Rightarrow> (Inr r, [(Get u h t, Returns r)])
      | Fails m \<Rightarrow> (Inl (RequestException m), [(Get u h t, Fails m)]))"

section \<open>Python built-ins the program uses\<close>

function str_nat :: "nat \<Rightarrow> string" where
  "str_nat n =
     (if n < 10 then [''0123456789'' ! n]
      else str_nat (n div 10) @ [''0123456789'' ! (n mod 10)])"
  by pat_completeness auto
termination
  by (relation "measure id") auto

text \<open>\<open>Response.raise_for_status\<close> of the \<open>requests\<close> library: it raises for a status from
  400 to 599 and for no other.\<close>

definition raise_for_status :: "response \<Rightarrow> exn + unit" where
  "raise_for_status resp =
     (if 400 \<le> status_code resp \<and> status_code resp < 500 then
        Inl (HTTPError (str_nat (status_code resp) @ '' Client Error: '' @ reason resp
                          @ '' for url: '' @ url resp) (Some resp))
      else if 500 \<le> status_code resp \<and> status_code resp < 600 then
        Inl (HTTPError (str_nat (status_code resp) @ '' Server Error: '' @ reason resp
                          @ '' for url: '' @ url resp) (Some resp))
      else Inr ())"

definition response_json :: "response \<Rightarrow> exn + jvalue" where
  "response_json resp = (case json resp of Inl m \<Rightarrow> Inl (JSONDecodeError m) | Inr v \<Rightarrow> Inr v)"

text \<open>\<open>str.isspace\<close> on code points below 256, and \<open>str.strip()\<close>.\<close>

definition isspace :: "char \<Rightarrow> bool" where
  "isspace c = (c \<in> {CHR 0x09, CHR 0x0A, CHR 0x0B, CHR 0x0C, CHR 0x0D, CHR 0x1C, CHR 0x1D,
                      CHR 0x1E, CHR 0x1F, CHR 0x20, CHR 0x85, CHR 0xA0})"

definition strip :: "string \<Rightarrow> string" where
  "strip s = rev (dropWhile isspace (rev (dropWhile isspace s)))"

text \<open>\<open>s.replace(old, new)\<close> for a pattern \<open>old\<close> of one character.\<close>

definition str_replace :: "char \<Rightarrow> string \<Rightarrow> string \<Rightarrow> string" where
  "str_replace old new s = concat (map (\<lambda>c. if c = old then new else [c]) s)"

fun join :: "string \<Rightarrow> string list \<Rightarrow> string" where
  "join sep [] = []"
| "join sep [x] = x"
| "join sep (x # y # ys) = x @ sep @ join sep (y # ys)"

text \<open>\<open>d.get(k, default)\<close> and \<open>d[k]\<close> on a dict with string keys.\<close>

definition dict_get :: "(string \<times> 'a) list \<Rightarrow> string \<Rightarrow> 'a \<Rightarrow> 'a" where
  "dict_get d k dflt = (case map_of d k of None \<Rightarrow> dflt | Some v \<Rightarrow> v)"

definition dict_item :: "(string \<times> 'a) list \<Rightarrow> string \<Rightarrow> exn + 'a" where
  "dict_item d k = (case map_of d k of None \<Rightarrow> Inl (KeyError k) | Some v \<Rightarrow> Inr v)"

fun type_name :: "jvalue \<Rightarrow> string" where
  "type_name JNull = ''NoneType''"
| "type_name (JBool b) = ''bool''"
| "type_name (JInt i) = ''int''"
| "type_name (JFloat f) = ''float''"
| "type_name (JStr s) = ''str''"
| "type_name (JArr xs) = ''list''"
| "type_name (JObj kvs) = ''dict''"

text \<open>\<open>v[k]\<close>, \<open>v.get(k, default)\<close> and \<open>len(v)\<close> on whatever \<open>resp.json()\<close> returned.\<close>

fun subscript :: "jvalue \<Rightarrow> string \<Rightarrow> exn + jvalue" where
  "subscript (JObj kvs) k = dict_item kvs k"
| "subscript (JArr xs) k = Inl (TypeError ''list indices must be integers or slices, not str'')"
| "subscript (JStr s) k = Inl (TypeError (''string indices must be integers, not '' @ quote @ ''str'' @ quote))"
| "subscript v k = Inl (TypeError (quote @ type_name v @ quote @ '' object is not subscriptable''))"

fun value_get :: "jvalue \<Rightarrow> string \<Rightarrow> jvalue \<Rightarrow> exn + jvalue" where
  "value_get (JObj kvs) k dflt = Inr (dict_get kvs k dflt)"
| "value_get v k dflt =
     Inl (AttributeError (quote @ type_name v @ quote @ '' object has no attribute '' @ quote @ ''get'' @ quote))"

fun py_len :: "jvalue \<Rightarrow> exn + int" where
  "py_len (JArr xs) = Inr (int (length xs))"
| "py_len (JStr s) = Inr (int (length s))"
| "py_len (JObj kvs) = Inr (int (length (remdups (map fst kvs))))"
| "py_len v = Inl (TypeError (''object of type '' @ quote @ type_name v @ quote @ '' has no len()''))"

text \<open>What an f-string makes of a configuration value (\<open>None\<close> when the variable is
  unset) and of a parsed JSON value.\<close>

definition fstr_opt :: "string option \<Rightarrow> string" where
  "fstr_opt v = (case v of None \<Rightarrow> ''None'' | Some s \<Rightarrow> s)"

definition fstr_value :: "world \<Rightarrow> jvalue \<Rightarrow> string" where
  "fstr_value w v = (case v of JStr s \<Rightarrow> s | _ \<Rightarrow> str_value w v)"

section \<open>Configuration\<close>

text \<open>The module-level settings, read with \<open>os.getenv\<close>: unset ones are \<open>None\<close>, but for
  \<open>TABLE_NAME\<close>, which has a default.\<close>

definition TENANT_ID :: "world \<Rightarrow> string option" where
  "TENANT_ID w = environ w ''TENANT_ID''"

definition CLIENT_ID :: "world \<Rightarrow> string option" where
  "CLIENT_ID w = environ w ''CLIENT_ID''"

definition CLIENT_SECRET :: "world \<Rightarrow> string option" where
  "CLIENT_SECRET w = environ w ''CLIENT_SECRET''"

definition DATAVERSE_URL :: "world \<Rightarrow> string option" where
  "DATAVERSE_URL w = environ w ''DATAVERSE_URL''"

definition TABLE_NAME :: "world \<Rightarrow> string" where
  "TABLE_NAME w = (case environ w ''TABLE_NAME'' of None \<Rightarrow> ''cr399_tables'' | Some v \<Rightarrow> v)"

section \<open>Token provider and query relay\<close>

definition token_url :: "world \<Rightarrow> string" where
  "token_url w = ''https://login.microsoftonline.com/'' @ fstr_opt (TENANT_ID w) @ ''/oauth2/v2.0/token''"

definition token_data :: "world \<Rightarrow> (string \<times> string option) list" where
  "token_data w =
     [(''grant_type'', Some ''client_credentials''),
      (''client_id'', CLIENT_ID w),
      (''client_secret'', CLIENT_SECRET w),
      (''scope'', Some (fstr_opt (DATAVERSE_URL w) @ ''/.default''))]"

definition get_access_token :: "world \<Rightarrow> jvalue comp" where
  "get_access_token w =
     bind (post w (token_url w) (token_data w) 15) (\<lambda>resp.
     bind (lift (raise_for_status resp)) (\<lambda>_.
     bind (lift (response_json resp)) (\<lambda>body.
     lift (subscript body ''access_token''))))"

text \<open>The \<open>headers\<close> dict, written out alike in \<open>query_dataverse\<close> and \<open>get_order\<close>.\<close>

definition headers :: "world \<Rightarrow> jvalue \<Rightarrow> (string \<times> string) list" where
  "headers w token =
     [(''Authorization'', ''Bearer '' @ fstr_value w token),
      (''Accept'', ''application/json''),
      (''OData-MaxVersion'', ''4.0''),
      (''OData-Version'', ''4.0''),
      (''Prefer'', ''odata.include-annotations=OData.Community.Display.V1.FormattedValue'')]"

definition endpoint :: "world \<Rightarrow> string \<Rightarrow> string \<Rightarrow> string" where
  "endpoint w select_cols filter_expr =
     fstr_opt (DATAVERSE_URL w) @ ''/api/data/v9.2/'' @ TABLE_NAME w
       @ ''?$select='' @ select_cols @ ''&$filter='' @ filter_expr @ ''&$top=50''"

definition query_dataverse :: "world \<Rightarrow> string \<Rightarrow> string \<Rightarrow> jvalue comp" where
  "query_dataverse w filter_expr select_cols =
     bind (get_access_token w) (\<lambda>token.
     bind (get w (endpoint w select_cols filter_expr) (headers w token) 20) (\<lambda>resp.
     bind (lift (raise_for_status resp)) (\<lambda>_.
     bind (lift (response_json resp)) (\<lambda>body.
     lift (value_get body ''value'' (JArr []))))))"

definition select_col_names :: "string list" where
  "select_col_names =
    [
     ''cr399_cr1e1_0003ausalesordersid'',
     ''cr399_cr1e1_no'',
     ''cr399_cr1e1_itemno'',
     ''cr399_cr1e1_customername'',
     ''cr399_cr1e1_customerno'',
     ''cr399_cr1e1_bincode'',
     ''cr399_cr1e1_externaldocumentno'',
     ''cr399_cr1e1_locationcode'',
     ''cr399_cr1e1_orderdate'',
     ''cr399_cr1e1_quantity'',
     ''cr399_cr1e1_saleinvoiceno'',
     ''cr399_cr1e1_salespersoncode'',
     ''cr399_cr1e1_shiptoaddress'',
     ''cr399_cr1e1_shiptoaddress2'',
     ''cr399_cr1e1_shiptocity'',
     ''cr399_cr1e1_shiptocountry'',
     ''cr399_cr1e1_shiptocountryregion'',
     ''cr399_cr1e1_shiptoname'',
     ''cr399_cr1e1_shiptophoneno'',
     ''cr399_cr1e1_shiptopostcode'',
     ''cr399_cr1e1_status'',
     ''cr399_cr1e1_totalinclvataud'',
     ''cr399_cr1e1_totalvataud'',
     ''cr399_cr1e1_trackingnumber'',
     ''cr399_cr1e1_type'',
     ''cr399_cr1e1_unitpriceincvat'',
     ''cr399_cr1e1_yourreference'',
     ''cr399_cr1e1_starshipitshipmentdate'',
     ''cr399_cr1e1_carriername'',
     ''cr399_cr1e1_carrierservice'']"

definition SELECT_COLS :: string where
  "SELECT_COLS = join '','' select_col_names"

section \<open>HTTP surface\<close>

text \<open>What a view function hands to Flask: a status with a JSON body (\<open>jsonify\<close>; the
  body is kept as the value given to it), or an exception nothing caught.\<close>

datatype flask_result = Response nat jvalue | Unhandled exn

type_synonym args = "(string \<times> string) list"

text \<open>\<open>request.args.get(key, default)\<close>: the first value given for the key.\<close>

definition args_get :: "args \<Rightarrow> string \<Rightarrow> string \<Rightarrow> string" where
  "args_get a k dflt = (case map_of a k of None \<Rightarrow> dflt | Some v \<Rightarrow> v)"

text \<open>The two \<open>except\<close> clauses, the same in \<open>search\<close> and \<open>get_order\<close>. Reading
  \<open>e.response.text\<close> of an \<open>HTTPError\<close> without a response raises inside the clause, and
  nothing catches that.\<close>

fun except_clauses :: "exn \<Rightarrow> flask_result" where
  "except_clauses (HTTPError m None) =
     Unhandled (AttributeError (quote @ ''NoneType'' @ quote @ '' object has no attribute ''
                                  @ quote @ ''text'' @ quote))"
| "except_clauses (HTTPError m (Some r)) =
     Response 502 (JObj [(''error'', JStr (str_exn (HTTPError m (Some r)))), (''detail'', JStr (resp_text r))])"
| "except_clauses e = Response 500 (JObj [(''error'', JStr (str_exn e))])"

definition catch :: "flask_result comp \<Rightarrow> flask_result \<times> trace" where
  "catch c = (case c of (Inl e, t) \<Rightarrow> (except_clauses e, t) | (Inr r, t) \<Rightarrow> (r, t))"

text \<open>Lines 96 to 103 of \<open>search\<close>: the escaped query and the filter chosen by \<open>by\<close>.\<close>

definition search_filter :: "string \<Rightarrow> string \<Rightarrow> exn + string" where
  "search_filter query search_by =
     (let safe_query = str_replace (CHR 0x27) (quote @ quote) query;
          filter_map =
            [(''name'', ''contains(cr399_cr1e1_no,'' @ quote @ safe_query @ quote @ '')''),
             (''external'', ''contains(cr399_cr1e1_externaldocumentno,'' @ quote @ safe_query @ quote @ '')''),
             (''reference'', ''contains(cr399_cr1e1_yourreference,'' @ quote @ safe_query @ quote @ '')'')]
      in case dict_item filter_map ''name'' of
           Inl e \<Rightarrow> Inl e
         | Inr dflt \<Rightarrow> Inr (dict_get filter_map search_by dflt))"

text \<open>The body of the \<open>try\<close> in \<open>search\<close>.\<close>

definition search_try :: "world \<Rightarrow> string \<Rightarrow> flask_result comp" where
  "search_try w filter_expr =
     bind (query_dataverse w filter_expr SELECT_COLS) (\<lambda>records.
     bind (lift (py_len records)) (\<lambda>n.
     return (Response 200 (JObj [(''data'', records), (''count'', JInt n)]))))"

definition search :: "world \<Rightarrow> args \<Rightarrow> flask_result \<times> trace" where
  "search w a =
     (let query = strip (args_get a ''q'' '''');
          search_by = args_get a ''by'' ''name''
      in if query = [] then
           (Response 400 (JObj [(''error'', JStr ''Query parameter 'q' is required.'')]), [])
         else
           (case search_filter query search_by of
              Inl e \<Rightarrow> (Unhandled e, [])
            | Inr filter_expr \<Rightarrow> catch (search_try w filter_expr)))"

definition order_url :: "world \<Rightarrow> string \<Rightarrow> string" where
  "order_url w order_id =
     fstr_opt (DATAVERSE_URL w) @ ''/api/data/v9.2/'' @ TABLE_NAME w
       @ ''('' @ order_id @ '')?$select='' @ SELECT_COLS"

text \<open>The body of the \<open>try\<close> in \<open>get_order\<close>.\<close>

definition get_order_try :: "world \<Rightarrow> string \<Rightarrow> flask_result comp" where
  "get_order_try w order_id =
     bind (get_access_token w) (\<lambda>token.
     bind (get w (order_url w order_id) (headers w token) 20) (\<lambda>resp.
     bind (lift (raise_for_status resp)) (\<lambda>_.
     bind (lift (response_json resp)) (\<lambda>body.
     return (Response 200 body)))))"

definition get_order :: "world \<Rightarrow> string \<Rightarrow> flask_result \<times> trace" where
  "get_order w order_id = catch (get_order_try w order_id)"

definition health :: "world \<Rightarrow> flask_result \<times> trace" where
  "health w = (Response 200 (JObj [(''status'', JStr ''ok'')]), [])"

text \<open>The three routes of the application and its dispatch.\<close>

datatype route = ApiSearch args | ApiOrder string | Health

fun handle :: "world \<Rightarrow> route \<Rightarrow> flask_result \<times> trace" where
  "handle w (ApiSearch a) = search w a"
| "handle w (ApiOrder order_id) = get_order w order_id"
| "handle w Health = health w"

text \<open>The exception that reaches the \<open>except\<close> clauses of a route's handler, if one does.\<close>

fun raised :: "world \<Rightarrow> route \<Rightarrow> exn option" where
  "raised w (ApiSearch a) =
     (let query = strip (args_get a ''q'' '''');
          search_by = args_get a ''by'' ''name''
      in if query = [] then None
         else (case search_filter query search_by of
                 Inl e \<Rightarrow> None
               | Inr filter_expr \<Rightarrow>
                   (case fst (search_try w filter_expr) of Inl e \<Rightarrow> Some e | Inr r \<Rightarrow> None)))"
| "raised w (ApiOrder order_id) =
     (case fst (get_order_try w order_id) of Inl e \<Rightarrow> Some e | Inr r \<Rightarrow> None)"
| "raised w Health = None"

text \<open>The sequence both \<open>try\<close> bodies run: a data call, its status check and the parsing
  of its body, and the same after a token fetch.\<close>

abbreviation fetch :: "world \<Rightarrow> string \<Rightarrow> (string \<times> string) list \<Rightarrow> (jvalue \<Rightarrow> exn + 'a) \<Rightarrow> 'a comp" where
  "fetch w u h k \<equiv>
     bind (get w u h 20) (\<lambda>resp.
     bind (lift (raise_for_status resp)) (\<lambda>_.
     bind (lift (response_json resp)) (\<lambda>body. lift (k body))))"

abbreviation relay :: "world \<Rightarrow> string \<Rightarrow> (jvalue \<Rightarrow> exn + 'a) \<Rightarrow> 'a comp" where
  "relay w u k \<equiv> bind (get_access_token w) (\<lambda>token. fetch w u (headers w token) k)"

section \<open>The specification's filter templates\<close>

text \<open>Following the specification: the column each discriminator is mapped to (order
  number, external document number, customer reference), with the names the source gives
  these columns.\<close>

definition spec_field :: "string \<Rightarrow> string" where
  "spec_field b =
     (if b = ''external'' then ''cr399_cr1e1_externaldocumentno''
      else if b = ''reference'' then ''cr399_cr1e1_yourreference''
      else ''cr399_cr1e1_no'')"

text \<open>Following the specification: a query with every single quote doubled, and the one
  clause \<open>contains(field,'q_escaped')\<close>.\<close>

fun spec_escape :: "string \<Rightarrow> string" where
  "spec_escape [] = []"
| "spec_escape (c # cs) = (if c = CHR 0x27 then [CHR 0x27, CHR 0x27] else [c]) @ spec_escape cs"

definition spec_filter :: "string \<Rightarrow> string \<Rightarrow> string" where
  "spec_filter field q = ''contains('' @ field @ '','' @ quote @ spec_escape q @ quote @ '')''"

section \<open>Concrete worlds\<close>

text \<open>A configured process whose token call has outcome \<open>a\<close> and whose data call has
  outcome \<open>b\<close>.\<close>

definition world_of :: "outcome \<Rightarrow> outcome \<Rightarrow> world" where
  "world_of a b =
     \<lparr>environ = map_of [(''TENANT_ID'', ''tenant''), (''CLIENT_ID'', ''client''),
                        (''CLIENT_SECRET'', ''secret''),
                        (''DATAVERSE_URL'', ''https://org.crm.dynamics.com'')],
      requests_post = (\<lambda>u d t. a),
      requests_get = (\<lambda>u h t. b),
      str_value = (\<lambda>v. ''?'')\<rparr>"

definition token_request :: request where
  "token_request =
     Post ''https://login.microsoftonline.com/tenant/oauth2/v2.0/token''
       [(''grant_type'', Some ''client_credentials''), (''client_id'', Some ''client''),
        (''client_secret'', Some ''secret''),
        (''scope'', Some ''https://org.crm.dynamics.com/.default'')] 15"

definition token_ok :: response where
  "token_ok =
     \<lparr>status_code = 200, reason = ''OK'',
      url = ''https://login.microsoftonline.com/tenant/oauth2/v2.0/token'',
      resp_text = ''{access_token: tok}'',
      json = Inr (JObj [(''access_token'', JStr ''tok'')])\<rparr>"

definition token_headers :: "(string \<times> string) list" where
  "token_headers =
     [(''Authorization'', ''Bearer tok''),
      (''Accept'', ''application/json''),
      (''OData-MaxVersion'', ''4.0''),
      (''OData-Version'', ''4.0''),
      (''Prefer'', ''odata.include-annotations=OData.Community.Display.V1.FormattedValue'')]"

definition search_url :: "string \<Rightarrow> string" where
  "search_url filter_expr =
     ''https://org.crm.dynamics.com/api/data/v9.2/cr399_tables?$select='' @ SELECT_COLS
       @ ''&$filter='' @ filter_expr @ ''&$top=50''"

definition rows_ok :: "jvalue list \<Rightarrow> response" where
  "rows_ok rows =
     \<lparr>status_code = 200, reason = ''OK'', url = ''https://org.crm.dynamics.com/'',
      resp_text = ''{value: [...]}'',
      json = Inr (JObj [(''value'', JArr rows)])\<rparr>"

definition row1 :: jvalue where
  "row1 = JObj [(''cr399_cr1e1_no'', JStr ''SO-1''), (''cr399_cr1e1_yourreference'', JStr ''O'Brien 1'')]"

definition row2 :: jvalue where
  "row2 = JObj [(''cr399_cr1e1_no'', JStr ''SO-2''), (''cr399_cr1e1_yourreference'', JStr ''O'Brien 2'')]"

definition not_modified :: response where
  "not_modified =
     \<lparr>status_code = 304, reason = ''Not Modified'', url = ''https://org.crm.dynamics.com/'',
      resp_text = [],
      json = Inl ''Expecting value: line 1 column 1 (char 0)''\<rparr>"

definition not_found :: response where
  "not_found =
     \<lparr>status_code = 404, reason = ''Not Found'', url = ''https://org.crm.dynamics.com/'',
      resp_text = ''no such table'',
      json = Inl ''Expecting value: line 1 column 1 (char 0)''\<rparr>"

definition bad_json :: response where
  "bad_json =
     \<lparr>status_code = 200, reason = ''OK'', url = ''https://org.crm.dynamics.com/'',
      resp_text = ''<html>'',
      json = Inl ''Expecting value: line 1 column 1 (char 0)''\<rparr>"

section \<open>Facts about the built-ins and the handlers\<close>


lemma strip_empty_iff: "strip s = [] \<longleftrightarrow> (\<forall>c\<in>set s. isspace c)"
proof
  assume "strip s = []"
  then have all: "\<forall>x\<in>set (dropWhile isspace s). isspace x"
    by (simp add: strip_def dropWhile_eq_Nil_conv)
  have "dropWhile isspace s = []"
  proof (rule ccontr)
    assume ne: "dropWhile isspace s \<noteq> []"
    then have "\<not> isspace (hd (dropWhile isspace s))" by (rule hd_dropWhile)
    moreover from ne have "hd (dropWhile isspace s) \<in> set (dropWhile isspace s)" by simp
    ultimately show False using all by blast
  qed
  then show "\<forall>c\<in>set s. isspace c" by (simp add: dropWhile_eq_Nil_conv)
next
  assume "\<forall>c\<in>set s. isspace c"
  then have d: "dropWhile isspace s = []" by (simp add: dropWhile_eq_Nil_conv)
  show "strip s = []" unfolding strip_def d by simp
qed

lemma spec_escape_replace: "str_replace (CHR 0x27) (quote @ quote) q = spec_escape q"
  by (induction q) (simp_all add: str_replace_def quote_def)

lemma search_filter_eq:
  "search_filter query b =
     Inr (if b \<in> {''name'', ''external'', ''reference''} then spec_filter (spec_field b) query
          else spec_filter ''cr399_cr1e1_no'' query)"
  by (simp add: search_filter_def dict_item_def dict_get_def spec_filter_def spec_field_def
      spec_escape_replace Let_def)

lemma raise_for_status_cases:
  "raise_for_status r = Inr () \<and> \<not> (400 \<le> status_code r \<and> status_code r < 600)
   \<or> (\<exists>m. raise_for_status r = Inl (HTTPError m (Some r))) \<and> 400 \<le> status_code r \<and> status_code r < 600"
  by (auto simp: raise_for_status_def)


lemmas unfolds = get_access_token_def query_dataverse_def search_try_def get_order_try_def
  bind_def lift_def return_def post_def get_def catch_def response_json_def

lemma get_order_502:
  assumes "(c, Returns r) \<in> set (snd (get_order w i))" and "400 \<le> status_code r" and "status_code r < 600"
  shows "\<exists>m. raise_for_status r = Inl (HTTPError m (Some r)) \<and> fst (get_order w i) = Response 502 (JObj [(''error'', JStr m), (''detail'', JStr (resp_text r))])"
  using assms raise_for_status_cases[of r]
  apply (simp add: get_order_def unfolds split: outcome.splits sum.splits prod.splits)
  apply (auto split: outcome.splits sum.splits prod.splits if_splits)
  done


lemma search_valid:
  assumes "strip (args_get a ''q'' '''') \<noteq> []"
  shows "search w a = catch (search_try w
           (if args_get a ''by'' ''name'' \<in> {''name'', ''external'', ''reference''}
            then spec_filter (spec_field (args_get a ''by'' ''name'')) (strip (args_get a ''q'' ''''))
            else spec_filter ''cr399_cr1e1_no'' (strip (args_get a ''q'' ''''))))"
  using assms by (simp add: search_def Let_def search_filter_eq)

lemma search_invalid:
  assumes "strip (args_get a ''q'' '''') = []"
  shows "search w a = (Response 400 (JObj [(''error'', JStr ''Query parameter 'q' is required.'')]), [])"
  using assms by (simp add: search_def Let_def)

lemma search_try_502:
  assumes "(c, Returns r) \<in> set (snd (catch (search_try w f)))" and "400 \<le> status_code r" and "status_code r < 600"
  shows "\<exists>m. raise_for_status r = Inl (HTTPError m (Some r)) \<and> fst (catch (search_try w f)) = Response 502 (JObj [(''error'', JStr m), (''detail'', JStr (resp_text r))])"
  using assms raise_for_status_cases[of r]
  apply (simp add: unfolds split: outcome.splits sum.splits prod.splits)
  apply (auto split: outcome.splits sum.splits prod.splits if_splits)
  done

lemma search_gets:
  assumes "(Get u h t, out) \<in> set (snd (catch (search_try w f)))"
  shows "u = endpoint w SELECT_COLS f \<and> t = 20"
  using assms
  by (simp add: unfolds split: outcome.splits sum.splits prod.splits)

lemmas world_evals = world_of_def token_request_def token_ok_def token_headers_def search_url_def
  rows_ok_def not_modified_def not_found_def bad_json_def
  TENANT_ID_def CLIENT_ID_def CLIENT_SECRET_def DATAVERSE_URL_def TABLE_NAME_def
  token_url_def token_data_def headers_def endpoint_def order_url_def fstr_opt_def fstr_value_def
  dict_item_def dict_get_def raise_for_status_def args_get_def strip_def isspace_def
  spec_filter_def spec_field_def quote_def handle.simps

lemma value_get_Inr:
  assumes "value_get v k d = Inr x"
  obtains kvs where "v = JObj kvs" and "x = dict_get kvs k d"
  using assms by (cases v) auto

lemma subscript_not_http: "\<not> is_HTTPError e" if "subscript v k = Inl e"
  using that by (cases v) (auto simp: dict_item_def split: option.splits)

lemma value_get_not_http: "\<not> is_HTTPError e" if "value_get v k d = Inl e"
  using that by (cases v) auto

lemma py_len_not_http: "\<not> is_HTTPError e" if "py_len v = Inl e"
  using that by (cases v) auto

lemma raise_for_status_Inl:
  assumes "raise_for_status r = Inl e"
  obtains m where "e = HTTPError m (Some r)" and "400 \<le> status_code r" and "status_code r < 600"
  using assms by (auto simp: raise_for_status_def split: if_splits)

text \<open>What the token fetch can do.\<close>

lemma get_access_token_cases:
  obtains (fails) m where
      "get_access_token w = (Inl (RequestException m), [(Post (token_url w) (token_data w) 15, Fails m)])"
  | (status) r m where
      "raise_for_status r = Inl (HTTPError m (Some r))"
      "get_access_token w = (Inl (HTTPError m (Some r)), [(Post (token_url w) (token_data w) 15, Returns r)])"
  | (decode) r m where
      "raise_for_status r = Inr ()" "json r = Inl m"
      "get_access_token w = (Inl (JSONDecodeError m), [(Post (token_url w) (token_data w) 15, Returns r)])"
  | (key) r b e where
      "raise_for_status r = Inr ()" "json r = Inr b" "subscript b ''access_token'' = Inl e"
      "get_access_token w = (Inl e, [(Post (token_url w) (token_data w) 15, Returns r)])"
  | (ok) r b tok where
      "raise_for_status r = Inr ()" "json r = Inr b" "subscript b ''access_token'' = Inr tok"
      "get_access_token w = (Inr tok, [(Post (token_url w) (token_data w) 15, Returns r)])"
proof (cases "requests_post w (token_url w) (token_data w) 15")
  case (Fails m)
  then show ?thesis using fails by (simp add: unfolds)
next
  case (Returns r)
  show ?thesis
  proof (cases "raise_for_status r")
    case (Inl e)
    then obtain m where "e = HTTPError m (Some r)" by (rule raise_for_status_Inl)
    with Inl Returns show ?thesis using status by (simp add: unfolds)
  next
    case (Inr u)
    then have ok1: "raise_for_status r = Inr ()" by simp
    show ?thesis
    proof (cases "json r")
      case (Inl m)
      with ok1 Returns show ?thesis using decode by (simp add: unfolds)
    next
      case b: (Inr b)
      show ?thesis
      proof (cases "subscript b ''access_token''")
        case (Inl e)
        with ok1 b Returns show ?thesis using key by (simp add: unfolds)
      next
        case (Inr tok)
        with ok1 b Returns show ?thesis using ok by (simp add: unfolds)
      qed
    qed
  qed
qed


lemma bind_Inl: "m = (Inl e, t) \<Longrightarrow> bind m f = (Inl e, t)"
  by (simp add: bind_def)

lemma bind_Inr: "m = (Inr x, t) \<Longrightarrow> bind m f = (fst (f x), t @ snd (f x))"
  by (simp add: bind_def split: prod.splits)

text \<open>What a data call, its status check and the parsing of its body can do.\<close>

lemma fetch_cases:
  fixes k :: "jvalue \<Rightarrow> exn + 'a"
  obtains (get_fails) m where
      "fetch w u h k = (Inl (RequestException m), [(Get u h 20, Fails m)])"
  | (get_status) r m where
      "raise_for_status r = Inl (HTTPError m (Some r))"
      "fetch w u h k = (Inl (HTTPError m (Some r)), [(Get u h 20, Returns r)])"
  | (get_decode) r m where
      "raise_for_status r = Inr ()" "json r = Inl m"
      "fetch w u h k = (Inl (JSONDecodeError m), [(Get u h 20, Returns r)])"
  | (get_parsed) r b where
      "raise_for_status r = Inr ()" "json r = Inr b"
      "fetch w u h k = (k b, [(Get u h 20, Returns r)])"
proof (cases "requests_get w u h 20")
  case (Fails m)
  then show ?thesis using get_fails by (simp add: get_def bind_def)
next
  case (Returns r)
  show ?thesis
  proof (cases "raise_for_status r")
    case (Inl e)
    then obtain m where "e = HTTPError m (Some r)" by (rule raise_for_status_Inl)
    with Inl Returns show ?thesis using get_status by (simp add: get_def bind_def lift_def)
  next
    case (Inr x)
    then have ok1: "raise_for_status r = Inr ()" by simp
    show ?thesis
    proof (cases "json r")
      case (Inl m)
      with ok1 Returns show ?thesis using get_decode
        by (simp add: get_def bind_def lift_def response_json_def)
    next
      case (Inr b)
      with ok1 Returns show ?thesis using get_parsed
        by (simp add: get_def bind_def lift_def response_json_def)
    qed
  qed
qed

text \<open>What a token fetch followed by a data fetch can do.\<close>

lemma relay_cases:
  fixes k :: "jvalue \<Rightarrow> exn + 'a"
  obtains (auth_fails) m where
      "relay w u k = (Inl (RequestException m), [(Post (token_url w) (token_data w) 15, Fails m)])"
  | (auth_status) r m where
      "raise_for_status r = Inl (HTTPError m (Some r))"
      "relay w u k = (Inl (HTTPError m (Some r)), [(Post (token_url w) (token_data w) 15, Returns r)])"
  | (auth_decode) r m where
      "raise_for_status r = Inr ()" "json r = Inl m"
      "relay w u k = (Inl (JSONDecodeError m), [(Post (token_url w) (token_data w) 15, Returns r)])"
  | (auth_key) r b e where
      "raise_for_status r = Inr ()" "json r = Inr b" "\<not> is_HTTPError e"
      "relay w u k = (Inl e, [(Post (token_url w) (token_data w) 15, Returns r)])"
  | (data_fails) r1 b1 tok m where
      "raise_for_status r1 = Inr ()" "json r1 = Inr b1"
      "relay w u k = (Inl (RequestException m),
            [(Post (token_url w) (token_data w) 15, Returns r1), (Get u (headers w tok) 20, Fails m)])"
  | (data_status) r1 b1 tok r m where
      "raise_for_status r1 = Inr ()" "json r1 = Inr b1"
      "raise_for_status r = Inl (HTTPError m (Some r))"
      "relay w u k = (Inl (HTTPError m (Some r)),
            [(Post (token_url w) (token_data w) 15, Returns r1), (Get u (headers w tok) 20, Returns r)])"
  | (data_decode) r1 b1 tok r m where
      "raise_for_status r1 = Inr ()" "json r1 = Inr b1"
      "raise_for_status r = Inr ()" "json r = Inl m"
      "relay w u k = (Inl (JSONDecodeError m),
            [(Post (token_url w) (token_data w) 15, Returns r1), (Get u (headers w tok) 20, Returns r)])"
  | (data_parsed) r1 b1 tok r b where
      "raise_for_status r1 = Inr ()" "json r1 = Inr b1"
      "raise_for_status r = Inr ()" "json r = Inr b"
      "relay w u k = (k b,
            [(Post (token_url w) (token_data w) 15, Returns r1), (Get u (headers w tok) 20, Returns r)])"
proof (cases rule: get_access_token_cases[of w])
  case (fails m)
  then show ?thesis using auth_fails by (simp add: bind_Inl)
next
  case (status r m)
  then show ?thesis using auth_status by (simp add: bind_Inl)
next
  case (decode r m)
  then show ?thesis using auth_decode by (simp add: bind_Inl)
next
  case (key r b e)
  from key(3) have "\<not> is_HTTPError e" by (rule subscript_not_http)
  with key show ?thesis using auth_key by (simp add: bind_Inl)
next
  case (ok r1 b1 tok)
  have FG: "relay w u k = (fst (fetch w u (headers w tok) k),
              [(Post (token_url w) (token_data w) 15, Returns r1)] @ snd (fetch w u (headers w tok) k))"
    by (rule bind_Inr[OF ok(4)])
  show ?thesis
  proof (cases rule: fetch_cases[of w u "headers w tok" k])
    case (get_fails m)
    with ok FG show ?thesis using data_fails by simp
  next
    case (get_status r m)
    with ok FG show ?thesis using data_status by simp
  next
    case (get_decode r m)
    with ok FG show ?thesis using data_decode by simp
  next
    case (get_parsed r b)
    with ok FG show ?thesis using data_parsed by simp
  qed
qed


lemma bind_assoc: "bind (bind m f) g = bind m (\<lambda>x. bind (f x) g)"
  by (auto simp: bind_def split: prod.splits sum.splits)

lemma bind_lift_lift:
  "bind (lift r) (\<lambda>x. lift (g x)) = lift (case r of Inl e \<Rightarrow> Inl e | Inr x \<Rightarrow> g x)"
  by (simp add: bind_def lift_def split: sum.splits)

lemma return_lift: "return x = lift (Inr x)"
  by (simp add: return_def lift_def)

text \<open>The two \<open>try\<close> bodies as relays.\<close>

lemma get_order_try_relay:
  "get_order_try w i = relay w (order_url w i) (\<lambda>body. Inr (Response 200 body))"
  by (simp only: get_order_try_def return_lift)

lemma search_try_relay:
  "search_try w f =
     relay w (endpoint w SELECT_COLS f)
       (\<lambda>body. case value_get body ''value'' (JArr []) of
                  Inl e \<Rightarrow> Inl e
                | Inr records \<Rightarrow>
                    (case py_len records of
                       Inl e \<Rightarrow> Inl e
                     | Inr n \<Rightarrow> Inr (Response 200 (JObj [(''data'', records), (''count'', JInt n)]))))"
  by (simp only: search_try_def query_dataverse_def return_lift bind_assoc bind_lift_lift[symmetric])

lemma search_k_not_http:
  assumes "(case value_get body ''value'' (JArr []) of
                  Inl e \<Rightarrow> Inl e
                | Inr records \<Rightarrow>
                    (case py_len records of
                       Inl e \<Rightarrow> Inl e
                     | Inr n \<Rightarrow> Inr (Response 200 (JObj [(''data'', records), (''count'', JInt n)])))) = Inl e"
  shows "\<not> is_HTTPError e"
  using assms by (auto split: sum.splits dest: value_get_not_http py_len_not_http)

lemma except_other: "\<not> is_HTTPError e \<Longrightarrow> except_clauses e = Response 500 (JObj [(''error'', JStr (str_exn e))])"
  by (cases e) simp_all

text \<open>Properties of any handler of the form \<open>catch (relay w u k)\<close> whose last step \<open>k\<close>
  raises no \<open>HTTPError\<close>.\<close>

lemma relay_http_error:
  fixes k :: "jvalue \<Rightarrow> exn + 'a"
  assumes k: "\<And>b e. k b = Inl e \<Longrightarrow> \<not> is_HTTPError e"
      and e: "fst (relay w u k) = Inl (HTTPError m ro)"
  shows "\<exists>c r. ro = Some r \<and> (c, Returns r) \<in> set (snd (relay w u k))
               \<and> raise_for_status r = Inl (HTTPError m (Some r))"
proof (cases rule: relay_cases[of w u k])
  case (auth_fails m)
  with e show ?thesis by simp
next
  case (auth_status r m)
  with e show ?thesis by auto
next
  case (auth_decode r m)
  with e show ?thesis by simp
next
  case (auth_key r b e')
  with e show ?thesis by auto
next
  case (data_fails r1 b1 tok m)
  with e show ?thesis by simp
next
  case (data_status r1 b1 tok r m)
  with e show ?thesis by auto
next
  case (data_decode r1 b1 tok r m)
  with e show ?thesis by simp
next
  case (data_parsed r1 b1 tok r b)
  with e have "k b = Inl (HTTPError m ro)" by simp
  from k[OF this] show ?thesis by simp
qed

lemma relay_fails:
  fixes k :: "jvalue \<Rightarrow> exn + 'a"
  assumes "(c, Fails m) \<in> set (snd (relay w u k))"
  shows "fst (relay w u k) = Inl (RequestException m)"
  using assms by (cases rule: relay_cases[of w u k]) auto

lemma relay_decode:
  fixes k :: "jvalue \<Rightarrow> exn + 'a"
  assumes "(c, Returns r) \<in> set (snd (relay w u k))" and "raise_for_status r = Inr ()" and "json r = Inl m"
  shows "fst (relay w u k) = Inl (JSONDecodeError m)"
  using assms by (cases rule: relay_cases[of w u k]) auto

lemma relay_returns:
  fixes k :: "jvalue \<Rightarrow> exn + 'a"
  assumes "fst (relay w u k) = Inr x"
  shows "\<exists>p tok r b. snd (relay w u k) = [p, (Get u (headers w tok) 20, Returns r)]
                    \<and> json r = Inr b \<and> k b = Inr x"
  using assms by (cases rule: relay_cases[of w u k]) auto

section \<open>Upstream HTTP errors\<close>

text \<open>
  C3, as amended. For every request to \<open>/api/search\<close> or \<open>/api/order/<id>\<close>: if the
  token call or the data call returns a response whose status is from 400 to 599 (the
  statuses for which \<open>raise_for_status\<close> raises), the endpoint answers 502 with a body
  of two fields, \<open>error\<close> holding the message of the \<open>HTTPError\<close> and \<open>detail\<close> holding
  the text of the upstream response.
\<close>

theorem upstream_error_status_502:
  assumes "(c, Returns r) \<in> set (snd (handle w rt))" and "400 \<le> status_code r" and "status_code r < 600"
  shows "\<exists>m. raise_for_status r = Inl (HTTPError m (Some r)) \<and> fst (handle w rt) = Response 502 (JObj [(''error'', JStr m), (''detail'', JStr (resp_text r))])"
proof (cases rt)
  case (ApiSearch a)
  show ?thesis
  proof (cases "strip (args_get a ''q'' '''') = []")
    case True
    with assms ApiSearch show ?thesis by (simp add: search_invalid)
  next
    case False
    with assms ApiSearch show ?thesis
      by (simp only: handle.simps search_valid[OF False] search_try_502)
  qed
next
  case (ApiOrder i)
  with assms show ?thesis by (simp add: get_order_502)
next
  case Health
  with assms show ?thesis by (simp add: health_def)
qed


theorem upstream_error_status_502_witness:
  "(Get (search_url (spec_filter ''cr399_cr1e1_no'' ''x'')) token_headers 20, Returns not_found)
     \<in> set (snd (handle (world_of (Returns token_ok) (Returns not_found)) (ApiSearch [(''q'', ''x'')])))
   \<and> 400 \<le> status_code not_found \<and> status_code not_found < 600
   \<and> fst (handle (world_of (Returns token_ok) (Returns not_found)) (ApiSearch [(''q'', ''x'')])) =
       Response 502 (JObj [(''error'', JStr ''404 Client Error: Not Found for url: https://org.crm.dynamics.com/''),
                           (''detail'', JStr ''no such table'')])"
proof -
  let ?w = "world_of (Returns token_ok) (Returns not_found)"
  let ?rt = "ApiSearch [(''q'', ''x'')]"
  let ?c = "Get (search_url (spec_filter ''cr399_cr1e1_no'' ''x'')) token_headers 20"
  have q: "strip (args_get [(''q'', ''x'')] ''q'' '''') \<noteq> []"
    by (simp add: world_evals)
  have mem: "(?c, Returns not_found) \<in> set (snd (handle ?w ?rt))"
    by (simp add: search_valid[OF q] unfolds world_evals)
  have lo: "400 \<le> status_code not_found" and hi: "status_code not_found < 600"
    by (simp_all add: not_found_def)
  from upstream_error_status_502[OF mem lo hi]
  obtain m where m: "raise_for_status not_found = Inl (HTTPError m (Some not_found))"
    and res: "fst (handle ?w ?rt) = Response 502 (JObj [(''error'', JStr m), (''detail'', JStr (resp_text not_found))])"
    by blast
  from m have "m = ''404 Client Error: Not Found for url: https://org.crm.dynamics.com/''"
    by (simp add: raise_for_status_def not_found_def)
  with res mem lo hi show ?thesis by (simp add: not_found_def)
qed

text \<open>
  C3 as stated speaks of every non-2xx response. A data call answered with status 304 and
  an empty body does not raise in \<open>raise_for_status\<close>; \<open>resp.json()\<close> then fails and the
  endpoint answers 500 with no \<open>detail\<close>.
\<close>

theorem upstream_non_2xx_counterexample:
  "snd (search (world_of (Returns token_ok) (Returns not_modified)) [(''q'', ''x'')]) =
     [(token_request, Returns token_ok),
      (Get (search_url (spec_filter ''cr399_cr1e1_no'' ''x'')) token_headers 20, Returns not_modified)]
   \<and> status_code not_modified = 304
   \<and> fst (search (world_of (Returns token_ok) (Returns not_modified)) [(''q'', ''x'')]) =
       Response 500 (JObj [(''error'', JStr ''Expecting value: line 1 column 1 (char 0)'')])"
proof -
  have q: "strip (args_get [(''q'', ''x'')] ''q'' '''') \<noteq> []"
    by (simp add: world_evals)
  show ?thesis
    by (simp add: search_valid[OF q] unfolds world_evals)
qed

section \<open>Liveness probe\<close>

text \<open>
  C9. Every request to \<open>/health\<close> is answered with status 200 and the body
  \<open>{"status": "ok"}\<close>, and no outbound call (token or data) is made for it: the trace
  of calls is empty.
\<close>

theorem health_ok:
  "health w = (Response 200 (JObj [(''status'', JStr ''ok'')]), []) \<and> handle w Health = health w"
  by (simp add: health_def)

section \<open>Input validation\<close>

text \<open>
  C2. For every request to \<open>/api/search\<close> whose \<open>q\<close> parameter is missing, empty or
  made of whitespace only, the answer is 400 with an error message, and no outbound call
  (token or data) is made: the trace of calls is empty.
\<close>

theorem blank_query_400:
  assumes "map_of a ''q'' = None \<or> (\<exists>s. map_of a ''q'' = Some s \<and> (\<forall>c\<in>set s. isspace c))"
  shows "search w a = (Response 400 (JObj [(''error'', JStr ''Query parameter 'q' is required.'')]), [])"
proof -
  from assms have "strip (args_get a ''q'' '''') = []"
    by (auto simp: args_get_def strip_empty_iff)
  then show ?thesis by (rule search_invalid)
qed

theorem blank_query_400_witness:
  "(map_of [(''by'', ''name'')] ''q'' = None \<and>
      search (world_of (Returns token_ok) (Returns (rows_ok [row1]))) [(''by'', ''name'')] =
        (Response 400 (JObj [(''error'', JStr ''Query parameter 'q' is required.'')]), []))
   \<and> (map_of [(''q'', [])] ''q'' = Some [] \<and>
      search (world_of (Returns token_ok) (Returns (rows_ok [row1]))) [(''q'', [])] =
        (Response 400 (JObj [(''error'', JStr ''Query parameter 'q' is required.'')]), []))
   \<and> (map_of [(''q'', [CHR 0x20, CHR 0x09, CHR 0x0A])] ''q'' = Some [CHR 0x20, CHR 0x09, CHR 0x0A] \<and>
      list_all isspace [CHR 0x20, CHR 0x09, CHR 0x0A] \<and>
      search (world_of (Returns token_ok) (Returns (rows_ok [row1]))) [(''q'', [CHR 0x20, CHR 0x09, CHR 0x0A])] =
        (Response 400 (JObj [(''error'', JStr ''Query parameter 'q' is required.'')]), []))"
proof -
  let ?w = "world_of (Returns token_ok) (Returns (rows_ok [row1]))"
  have 1: "map_of [(''by'', ''name'')] ''q'' = None \<or>
      (\<exists>s. map_of [(''by'', ''name'')] ''q'' = Some s \<and> (\<forall>c\<in>set s. isspace c))"
    by simp
  have 2: "map_of [(''q'', [])] ''q'' = None \<or>
      (\<exists>s. map_of [(''q'', [])] ''q'' = Some s \<and> (\<forall>c\<in>set s. isspace c))"
    by simp
  have 3: "map_of [(''q'', [CHR 0x20, CHR 0x09, CHR 0x0A])] ''q'' = None \<or>
      (\<exists>s. map_of [(''q'', [CHR 0x20, CHR 0x09, CHR 0x0A])] ''q'' = Some s \<and> (\<forall>c\<in>set s. isspace c))"
    by (simp add: isspace_def)
  show ?thesis
    using blank_query_400[OF 1, of ?w] blank_query_400[OF 2, of ?w] blank_query_400[OF 3, of ?w]
    by (simp add: isspace_def)
qed

section \<open>The filter expression\<close>

text \<open>
  C1, as amended. For every \<open>q\<close> that is not empty once trimmed of surrounding whitespace
  and every \<open>by\<close> among name, external and reference, the filter expression passed to
  the data query is exactly the one clause \<open>contains(field,'q_escaped')\<close>, where \<open>field\<close>
  is the column mapped to the discriminator and \<open>q_escaped\<close> is the trimmed \<open>q\<close> with every
  single quote replaced by two, put into the template by concatenation; and every data
  call made carries it in its URL.
\<close>

theorem search_filter_clause:
  assumes "strip (args_get a ''q'' '''') \<noteq> []"
      and "map_of a ''by'' = Some b"
      and "b \<in> {''name'', ''external'', ''reference''}"
  shows "search w a = catch (search_try w (spec_filter (spec_field b) (strip (args_get a ''q'' ''''))))
       \<and> (\<forall>u h t out. (Get u h t, out) \<in> set (snd (search w a)) \<longrightarrow>
             u = endpoint w SELECT_COLS (spec_filter (spec_field b) (strip (args_get a ''q'' ''''))))"
proof -
  from assms(2) have b: "args_get a ''by'' ''name'' = b" by (simp add: args_get_def)
  with assms(3) have s: "search w a = catch (search_try w (spec_filter (spec_field b) (strip (args_get a ''q'' ''''))))"
    by (simp only: search_valid[OF assms(1)] if_True)
  show ?thesis using search_gets[of _ _ _ _ w] by (simp only: s) blast
qed

theorem search_filter_clause_witness:
  "strip (args_get [(''q'', ''a'b''), (''by'', ''external'')] ''q'' '''') \<noteq> []
   \<and> map_of [(''q'', ''a'b''), (''by'', ''external'')] ''by'' = Some ''external''
   \<and> search (world_of (Returns token_ok) (Returns (rows_ok [row1]))) [(''q'', ''a'b''), (''by'', ''external'')] =
       catch (search_try (world_of (Returns token_ok) (Returns (rows_ok [row1])))
                (''contains(cr399_cr1e1_externaldocumentno,'' @ quote @ ''a'' @ quote @ quote @ ''b'' @ quote @ '')''))"
proof -
  let ?a = "[(''q'', ''a'b''), (''by'', ''external'')]"
  have q: "strip (args_get ?a ''q'' '''') \<noteq> []" by (simp add: world_evals)
  have b: "map_of ?a ''by'' = Some ''external''" by simp
  have m: "''external'' \<in> {''name'', ''external'', ''reference''}" by simp
  have f: "spec_filter (spec_field ''external'') (strip (args_get ?a ''q'' ''''))
           = ''contains(cr399_cr1e1_externaldocumentno,'' @ quote @ ''a'' @ quote @ quote @ ''b'' @ quote @ '')''"
    by (simp add: world_evals)
  from search_filter_clause[OF q b m, of "world_of (Returns token_ok) (Returns (rows_ok [row1]))"]
  show ?thesis using q b by (simp only: f) simp
qed

text \<open>
  C1 as stated takes \<open>q\<close> as given. The query \<open>" a"\<close> is not empty, and the filter sent
  is \<open>contains(cr399_cr1e1_no,'a')\<close>, without the space; the query \<open>" "\<close> is not empty
  either, and no filter is sent at all.
\<close>

theorem untrimmed_query_counterexample:
  "map fst (snd (search (world_of (Returns token_ok) (Returns (rows_ok [row1]))) [(''q'', '' a''), (''by'', ''name'')])) =
     [token_request, Get (search_url (''contains(cr399_cr1e1_no,'a')'')) token_headers 20]
   \<and> search_url (''contains(cr399_cr1e1_no,'a')'') \<noteq> search_url (''contains(cr399_cr1e1_no,' a')'')
   \<and> search (world_of (Returns token_ok) (Returns (rows_ok [row1]))) [(''q'', '' ''), (''by'', ''name'')] =
       (Response 400 (JObj [(''error'', JStr ''Query parameter 'q' is required.'')]), [])"
proof -
  have q: "strip (args_get [(''q'', '' a''), (''by'', ''name'')] ''q'' '''') \<noteq> []"
    by (simp add: world_evals)
  have q': "strip (args_get [(''q'', '' ''), (''by'', ''name'')] ''q'' '''') = []"
    by (simp add: world_evals)
  show ?thesis
    by (simp add: search_valid[OF q] search_invalid[OF q'] unfolds world_evals)
qed

text \<open>
  C5. For every \<open>by\<close> value outside name, external and reference, and when \<open>by\<close> is
  missing, \<open>/api/search\<close> uses the filter of the name discriminator, and answers exactly
  as it does when \<open>by=name\<close> is given: no error comes of the unrecognized value.
\<close>

theorem unrecognized_by_falls_back:
  assumes "map_of a ''by'' = None \<or> (\<exists>b. map_of a ''by'' = Some b \<and> b \<notin> {''name'', ''external'', ''reference''})"
  shows "search w a = search w ((''by'', ''name'') # a)
       \<and> (strip (args_get a ''q'' '''') \<noteq> [] \<longrightarrow>
            search w a = catch (search_try w (spec_filter ''cr399_cr1e1_no'' (strip (args_get a ''q'' '''')))))"
proof -
  have q: "args_get ((''by'', ''name'') # a) ''q'' '''' = args_get a ''q'' ''''"
    by (simp add: args_get_def)
  have n: "args_get ((''by'', ''name'') # a) ''by'' ''name'' = ''name''"
    by (simp add: args_get_def)
  from assms have d: "args_get a ''by'' ''name'' = ''name'' \<or> args_get a ''by'' ''name'' \<notin> {''name'', ''external'', ''reference''}"
    by (auto simp: args_get_def)
  show ?thesis
  proof (cases "strip (args_get a ''q'' '''') = []")
    case True
    then show ?thesis by (simp add: search_invalid q)
  next
    case False
    from False have F': "strip (args_get ((''by'', ''name'') # a) ''q'' '''') \<noteq> []" by (simp add: q)
    from d have "search w a = catch (search_try w (spec_filter ''cr399_cr1e1_no'' (strip (args_get a ''q'' ''''))))"
      by (auto simp: search_valid[OF False] spec_field_def)
    moreover have "search w ((''by'', ''name'') # a) = catch (search_try w (spec_filter ''cr399_cr1e1_no'' (strip (args_get a ''q'' ''''))))"
      by (simp add: search_valid[OF F'] n q spec_field_def)
    ultimately show ?thesis by simp
  qed
qed

theorem unrecognized_by_falls_back_witness:
  "map_of [(''q'', ''x''), (''by'', ''customer'')] ''by'' = Some ''customer''
   \<and> ''customer'' \<notin> {''name'', ''external'', ''reference''}
   \<and> strip (args_get [(''q'', ''x''), (''by'', ''customer'')] ''q'' '''') \<noteq> []
   \<and> search (world_of (Returns token_ok) (Returns (rows_ok [row1]))) [(''q'', ''x''), (''by'', ''customer'')] =
       search (world_of (Returns token_ok) (Returns (rows_ok [row1]))) [(''by'', ''name''), (''q'', ''x''), (''by'', ''customer'')]
   \<and> search (world_of (Returns token_ok) (Returns (rows_ok [row1]))) [(''q'', ''x''), (''by'', ''customer'')] =
       catch (search_try (world_of (Returns token_ok) (Returns (rows_ok [row1])))
                (''contains(cr399_cr1e1_no,'x')''))
   \<and> map_of [(''q'', ''x'')] ''by'' = None
   \<and> search (world_of (Returns token_ok) (Returns (rows_ok [row1]))) [(''q'', ''x'')] =
       catch (search_try (world_of (Returns token_ok) (Returns (rows_ok [row1])))
                (''contains(cr399_cr1e1_no,'x')''))"
proof -
  let ?a = "[(''q'', ''x''), (''by'', ''customer'')]"
  let ?w = "world_of (Returns token_ok) (Returns (rows_ok [row1]))"
  have h: "map_of ?a ''by'' = None \<or> (\<exists>b. map_of ?a ''by'' = Some b \<and> b \<notin> {''name'', ''external'', ''reference''})"
    by simp
  have h': "map_of [(''q'', ''x'')] ''by'' = None \<or> (\<exists>b. map_of [(''q'', ''x'')] ''by'' = Some b \<and> b \<notin> {''name'', ''external'', ''reference''})"
    by simp
  have q: "strip (args_get ?a ''q'' '''') = ''x''" by (simp add: world_evals)
  have q': "strip (args_get [(''q'', ''x'')] ''q'' '''') = ''x''" by (simp add: world_evals)
  have f: "spec_filter ''cr399_cr1e1_no'' ''x'' = ''contains(cr399_cr1e1_no,'x')''"
    by (simp add: world_evals)
  have x: "''x'' \<noteq> []" by simp
  from unrecognized_by_falls_back[OF h, of ?w]
  have 1: "search ?w ?a = search ?w ((''by'', ''name'') # ?a)"
    and 2: "search ?w ?a = catch (search_try ?w (''contains(cr399_cr1e1_no,'x')''))"
    unfolding q f using x by blast+
  from unrecognized_by_falls_back[OF h', of ?w]
  have 3: "search ?w [(''q'', ''x'')] = catch (search_try ?w (''contains(cr399_cr1e1_no,'x')''))"
    unfolding q' f using x by blast
  have 4: "map_of ?a ''by'' = Some ''customer''" by simp
  have 5: "''customer'' \<notin> {''name'', ''external'', ''reference''}" by simp
  have 6: "strip (args_get ?a ''q'' '''') \<noteq> []" unfolding q by simp
  have 7: "map_of [(''q'', ''x'')] ''by'' = None" by simp
  show ?thesis by (intro conjI) (fact 1 2 3 4 5 6 7)+
qed

section \<open>The select list\<close>

lemma length_select_col_names: "length select_col_names = 30"
  by (simp add: select_col_names_def)

lemma distinct_select_col_names: "distinct select_col_names"
  by (simp add: select_col_names_def)

text \<open>
  C8, as amended. Every \<open>/api/search\<close> request that passes input validation invokes
  \<open>query_dataverse\<close> with the fixed select list \<open>SELECT_COLS\<close>, which joins exactly 30
  distinct column names (a record being an untyped mapping of these 30 named fields), and
  every data call made carries that list in its URL.
\<close>

theorem search_select_list:
  assumes "strip (args_get a ''q'' '''') \<noteq> []"
  shows "(\<exists>f. search w a = catch (bind (query_dataverse w f (join '','' select_col_names)) (\<lambda>records.
                     bind (lift (py_len records)) (\<lambda>n.
                     return (Response 200 (JObj [(''data'', records), (''count'', JInt n)])))))
              \<and> (\<forall>u h t out. (Get u h t, out) \<in> set (snd (search w a)) \<longrightarrow>
                     u = endpoint w (join '','' select_col_names) f))
       \<and> length select_col_names = 30 \<and> distinct select_col_names"
proof -
  let ?f = "if args_get a ''by'' ''name'' \<in> {''name'', ''external'', ''reference''}
            then spec_filter (spec_field (args_get a ''by'' ''name'')) (strip (args_get a ''q'' ''''))
            else spec_filter ''cr399_cr1e1_no'' (strip (args_get a ''q'' ''''))"
  have s: "search w a = catch (search_try w ?f)" by (rule search_valid[OF assms])
  have g: "\<forall>u h t out. (Get u h t, out) \<in> set (snd (search w a)) \<longrightarrow> u = endpoint w (join '','' select_col_names) ?f"
    unfolding s using search_gets[of _ _ _ _ w ?f] by (simp only: SELECT_COLS_def) blast
  have "search w a = catch (bind (query_dataverse w ?f (join '','' select_col_names)) (\<lambda>records.
                     bind (lift (py_len records)) (\<lambda>n.
                     return (Response 200 (JObj [(''data'', records), (''count'', JInt n)])))))"
    unfolding s by (simp only: search_try_def SELECT_COLS_def)
  with g have "\<exists>f. search w a = catch (bind (query_dataverse w f (join '','' select_col_names)) (\<lambda>records.
                     bind (lift (py_len records)) (\<lambda>n.
                     return (Response 200 (JObj [(''data'', records), (''count'', JInt n)])))))
              \<and> (\<forall>u h t out. (Get u h t, out) \<in> set (snd (search w a)) \<longrightarrow>
                     u = endpoint w (join '','' select_col_names) f)"
    by blast
  then show ?thesis using length_select_col_names distinct_select_col_names by blast
qed

theorem search_select_list_witness:
  "strip (args_get [(''q'', ''x'')] ''q'' '''') \<noteq> []
   \<and> (\<exists>f. search (world_of (Returns token_ok) (Returns (rows_ok [row1]))) [(''q'', ''x'')] =
            catch (bind (query_dataverse (world_of (Returns token_ok) (Returns (rows_ok [row1]))) f
                           (join '','' select_col_names)) (\<lambda>records.
                   bind (lift (py_len records)) (\<lambda>n.
                   return (Response 200 (JObj [(''data'', records), (''count'', JInt n)]))))))
   \<and> length select_col_names = 30"
proof -
  have q: "strip (args_get [(''q'', ''x'')] ''q'' '''') \<noteq> []" by (simp add: world_evals)
  from search_select_list[OF q, of "world_of (Returns token_ok) (Returns (rows_ok [row1]))"] q
  show ?thesis by blast
qed

text \<open>
  C8 as stated counts 29 columns; the list the source joins has 30.
\<close>

theorem select_list_29_counterexample:
  "length select_col_names = 30 \<and> length select_col_names \<noteq> 29"
  by (simp add: select_col_names_def)

section \<open>The worked example\<close>

lemma status_2xx_no_raise:
  "200 \<le> status_code r \<Longrightarrow> status_code r < 300 \<Longrightarrow> raise_for_status r = Inr ()"
  by (simp add: raise_for_status_def)

text \<open>
  C7, as amended. The request \<open>GET /api/search?q=O'Brien&by=reference\<close> produces the
  outbound filter clause \<open>contains(cr399_cr1e1_yourreference,'O''Brien')\<close>, with the
  single quote doubled, and, when the token call succeeds and the data call returns two
  rows, the response is 200 with the body \<open>{"data": [row1, row2], "count": 2}\<close>.
\<close>

theorem obrien_example:
  assumes "requests_post w (token_url w) (token_data w) 15 = Returns r1"
      and "200 \<le> status_code r1 \<and> status_code r1 < 300"
      and "json r1 = Inr b1"
      and "subscript b1 ''access_token'' = Inr tok"
      and "requests_get w
             (endpoint w SELECT_COLS
                (''contains(cr399_cr1e1_yourreference,'' @ quote @ ''O'' @ quote @ quote @ ''Brien'' @ quote @ '')''))
             (headers w tok) 20 = Returns r2"
      and "200 \<le> status_code r2 \<and> status_code r2 < 300"
      and "json r2 = Inr (JObj kvs)"
      and "map_of kvs ''value'' = Some (JArr [ra, rb])"
  shows "search w [(''q'', ''O'Brien''), (''by'', ''reference'')] =
           (Response 200 (JObj [(''data'', JArr [ra, rb]), (''count'', JInt 2)]),
            [(Post (token_url w) (token_data w) 15, Returns r1),
             (Get (endpoint w SELECT_COLS
                     (''contains(cr399_cr1e1_yourreference,'' @ quote @ ''O'' @ quote @ quote @ ''Brien'' @ quote @ '')''))
                  (headers w tok) 20, Returns r2)])"
proof -
  let ?a = "[(''q'', ''O'Brien''), (''by'', ''reference'')]"
  have q: "strip (args_get ?a ''q'' '''') \<noteq> []"
    by (simp add: args_get_def strip_def isspace_def)
  have f: "(if args_get ?a ''by'' ''name'' \<in> {''name'', ''external'', ''reference''}
            then spec_filter (spec_field (args_get ?a ''by'' ''name'')) (strip (args_get ?a ''q'' ''''))
            else spec_filter ''cr399_cr1e1_no'' (strip (args_get ?a ''q'' '''')))
           = ''contains(cr399_cr1e1_yourreference,'' @ quote @ ''O'' @ quote @ quote @ ''Brien'' @ quote @ '')''"
    by (simp add: args_get_def strip_def isspace_def spec_filter_def spec_field_def quote_def)
  have r1: "raise_for_status r1 = Inr ()" and r2: "raise_for_status r2 = Inr ()"
    using assms(2,6) by (simp_all add: status_2xx_no_raise)
  show ?thesis
    unfolding search_valid[OF q] f
    using assms(1,3,4,5,7,8) r1 r2
    by (simp add: unfolds dict_get_def)
qed

theorem obrien_example_witness:
  "search (world_of (Returns token_ok) (Returns (rows_ok [row1, row2])))
          [(''q'', ''O'Brien''), (''by'', ''reference'')] =
     (Response 200 (JObj [(''data'', JArr [row1, row2]), (''count'', JInt 2)]),
      [(token_request, Returns token_ok),
       (Get (search_url (''contains(cr399_cr1e1_yourreference,'' @ quote @ ''O'' @ quote @ quote @ ''Brien'' @ quote @ '')''))
            token_headers 20, Returns (rows_ok [row1, row2]))])"
proof -
  let ?w = "world_of (Returns token_ok) (Returns (rows_ok [row1, row2]))"
  let ?f = "''contains(cr399_cr1e1_yourreference,'' @ quote @ ''O'' @ quote @ quote @ ''Brien'' @ quote @ '')''"
  have 1: "requests_post ?w (token_url ?w) (token_data ?w) 15 = Returns token_ok"
    by (simp add: world_of_def)
  have 2: "200 \<le> status_code token_ok \<and> status_code token_ok < 300"
    by (simp add: token_ok_def)
  have 3: "json token_ok = Inr (JObj [(''access_token'', JStr ''tok'')])"
    by (simp add: token_ok_def)
  have 4: "subscript (JObj [(''access_token'', JStr ''tok'')]) ''access_token'' = Inr (JStr ''tok'')"
    by (simp add: dict_item_def)
  have 5: "requests_get ?w (endpoint ?w SELECT_COLS ?f) (headers ?w (JStr ''tok'')) 20 = Returns (rows_ok [row1, row2])"
    by (simp add: world_of_def)
  have 6: "200 \<le> status_code (rows_ok [row1, row2]) \<and> status_code (rows_ok [row1, row2]) < 300"
    by (simp add: rows_ok_def)
  have 7: "json (rows_ok [row1, row2]) = Inr (JObj [(''value'', JArr [row1, row2])])"
    by (simp add: rows_ok_def)
  have 8: "map_of [(''value'', JArr [row1, row2])] ''value'' = Some (JArr [row1, row2])"
    by simp
  have u: "Post (token_url ?w) (token_data ?w) 15 = token_request"
    by (simp add: world_evals)
  have e: "endpoint ?w SELECT_COLS ?f = search_url ?f"
    by (simp add: world_evals)
  have h: "headers ?w (JStr ''tok'') = token_headers"
    by (simp add: world_evals)
  from obrien_example[OF 1 2 3 4 5 6 7 8]
  show ?thesis by (simp only: u e h)
qed

text \<open>
  C7 as stated names the column \<open>cr1e1_yourreference\<close>. The clause sent names
  \<open>cr399_cr1e1_yourreference\<close>, and the clause of the claim occurs nowhere in the URL of
  the data call.
\<close>

theorem obrien_field_counterexample:
  "map fst (snd (search (world_of (Returns token_ok) (Returns (rows_ok [row1, row2])))
                        [(''q'', ''O'Brien''), (''by'', ''reference'')])) =
     [token_request,
      Get (search_url (''contains(cr399_cr1e1_yourreference,'' @ quote @ ''O'' @ quote @ quote @ ''Brien'' @ quote @ '')''))
          token_headers 20]
   \<and> ''contains(cr399_cr1e1_yourreference,'' @ quote @ ''O'' @ quote @ quote @ ''Brien'' @ quote @ '')''
       \<noteq> ''contains(cr1e1_yourreference,'' @ quote @ ''O'' @ quote @ quote @ ''Brien'' @ quote @ '')''
   \<and> \<not> sublist (''contains(cr1e1_yourreference,'' @ quote @ ''O'' @ quote @ quote @ ''Brien'' @ quote @ '')'')
         (search_url (''contains(cr399_cr1e1_yourreference,'' @ quote @ ''O'' @ quote @ quote @ ''Brien'' @ quote @ '')''))"
proof -
  have q: "strip (args_get [(''q'', ''O'Brien''), (''by'', ''reference'')] ''q'' '''') \<noteq> []"
    by (simp add: world_evals)
  have 1: "map fst (snd (search (world_of (Returns token_ok) (Returns (rows_ok [row1, row2])))
                        [(''q'', ''O'Brien''), (''by'', ''reference'')])) =
     [token_request,
      Get (search_url (''contains(cr399_cr1e1_yourreference,'' @ quote @ ''O'' @ quote @ quote @ ''Brien'' @ quote @ '')''))
          token_headers 20]"
    by (simp add: search_valid[OF q] unfolds world_evals)
  have 2: "''contains(cr399_cr1e1_yourreference,'' @ quote @ ''O'' @ quote @ quote @ ''Brien'' @ quote @ '')''
       \<noteq> ''contains(cr1e1_yourreference,'' @ quote @ ''O'' @ quote @ quote @ ''Brien'' @ quote @ '')''"
    by simp
  have 3: "\<not> sublist (''contains(cr1e1_yourreference,'' @ quote @ ''O'' @ quote @ quote @ ''Brien'' @ quote @ '')'')
         (search_url (''contains(cr399_cr1e1_yourreference,'' @ quote @ ''O'' @ quote @ quote @ ''Brien'' @ quote @ '')''))"
    by (simp add: search_url_def SELECT_COLS_def select_col_names_def quote_def sublist_code)
  show ?thesis by (intro conjI) (fact 1 2 3)+
qed

section \<open>Routes as caught relays\<close>

lemma catch_Inl: "fst T = Inl e \<Longrightarrow> fst (catch T) = except_clauses e"
  by (cases T) (simp add: catch_def)

lemma catch_Inr: "fst T = Inr x \<Longrightarrow> fst (catch T) = x"
  by (cases T) (simp add: catch_def)

lemma snd_catch: "snd (catch T) = snd T"
  by (cases T) (simp add: catch_def split: sum.splits)

text \<open>Every route answers at once, without a call, or is a caught relay.\<close>

text \<open>Every route answers at once, without a call, or is a caught relay.\<close>

lemma route_cases:
  obtains (blank) a where
      "rt = ApiSearch a" "strip (args_get a ''q'' '''') = []"
      "handle w rt = (Response 400 (JObj [(''error'', JStr ''Query parameter 'q' is required.'')]), [])"
      "raised w rt = None"
  | (health)
      "rt = Health"
      "handle w rt = (Response 200 (JObj [(''status'', JStr ''ok'')]), [])"
      "raised w rt = None"
  | (relayed) u k where
      "\<And>b e. k b = Inl e \<Longrightarrow> \<not> is_HTTPError e"
      "\<And>b x. k b = Inr x \<Longrightarrow> \<exists>j. x = Response 200 j"
      "handle w rt = catch (relay w u k)"
      "raised w rt = (case fst (relay w u k) of Inl e \<Rightarrow> Some e | Inr r \<Rightarrow> None)"
proof (cases rt)
  case (ApiSearch a)
  show ?thesis
  proof (cases "strip (args_get a ''q'' '''') = []")
    case True
    with ApiSearch show ?thesis using blank[of a] by (simp add: search_invalid Let_def)
  next
    case False
    let ?f = "if args_get a ''by'' ''name'' \<in> {''name'', ''external'', ''reference''}
              then spec_filter (spec_field (args_get a ''by'' ''name'')) (strip (args_get a ''q'' ''''))
              else spec_filter ''cr399_cr1e1_no'' (strip (args_get a ''q'' ''''))"
    let ?k = "\<lambda>body. case value_get body ''value'' (JArr []) of
                  Inl e \<Rightarrow> Inl e
                | Inr records \<Rightarrow>
                    (case py_len records of
                       Inl e \<Rightarrow> Inl e
                     | Inr n \<Rightarrow> Inr (Response 200 (JObj [(''data'', records), (''count'', JInt n)])))"
    have h: "handle w rt = catch (relay w (endpoint w SELECT_COLS ?f) ?k)"
      unfolding ApiSearch handle.simps search_valid[OF False] search_try_relay ..
    have r: "raised w rt = (case fst (relay w (endpoint w SELECT_COLS ?f) ?k) of Inl e \<Rightarrow> Some e | Inr r \<Rightarrow> None)"
      using False unfolding ApiSearch search_try_relay[symmetric]
      by (simp add: Let_def search_filter_eq)
    have k1: "\<And>b e. ?k b = Inl e \<Longrightarrow> \<not> is_HTTPError e"
      by (rule search_k_not_http)
    have k2: "\<And>b x. ?k b = Inr x \<Longrightarrow> \<exists>j. x = Response 200 j"
      by (auto split: sum.splits)
    from k1 k2 h r show ?thesis by (rule relayed)
  qed
next
  case (ApiOrder i)
  have h: "handle w rt = catch (relay w (order_url w i) (\<lambda>body. Inr (Response 200 body)))"
    unfolding ApiOrder handle.simps get_order_def get_order_try_relay ..
  have r: "raised w rt = (case fst (relay w (order_url w i) (\<lambda>body. Inr (Response 200 body))) of
                            Inl e \<Rightarrow> Some e | Inr r \<Rightarrow> None)"
    unfolding ApiOrder raised.simps get_order_try_relay ..
  show ?thesis by (rule relayed[OF _ _ h r]) auto
next
  case Health
  then show ?thesis using health by (simp add: health_def)
qed

lemma relay_http_error_response:
  fixes k :: "jvalue \<Rightarrow> exn + 'a"
  assumes "\<forall>b e. k b = Inl e \<longrightarrow> \<not> is_HTTPError e"
      and "fst (relay w u k) = Inl (HTTPError m ro)"
  shows "\<exists>c r. ro = Some r \<and> (c, Returns r) \<in> set (snd (relay w u k))
               \<and> raise_for_status r = Inl (HTTPError m (Some r))"
proof (rule relay_http_error)
  show "\<And>b e. k b = Inl e \<Longrightarrow> \<not> is_HTTPError e" using assms(1) by blast
  show "fst (relay w u k) = Inl (HTTPError m ro)" by (rule assms(2))
qed

lemma raise_for_status_400:
  "raise_for_status r = Inl e \<Longrightarrow> 400 \<le> status_code r \<and> status_code r < 600"
  by (auto simp: raise_for_status_def split: if_splits)

lemma except_not_200: "except_clauses e \<noteq> Response 200 b"
proof (cases e)
  case (HTTPError m ro)
  then show ?thesis by (cases ro) simp_all
qed simp_all

lemma suffix_top_50: "suffix ''&$top=50'' (endpoint w s f)"
  unfolding endpoint_def suffix_def by (metis append.assoc)

section \<open>The 502 clause never fails\<close>

text \<open>
  C10. On every path that reaches the 502 clause of \<open>/api/search\<close> or
  \<open>/api/order/<id>\<close>, the caught \<open>HTTPError\<close> carries a response: it was raised by the
  status check of a response some call of the request returned. Reading its message and its
  body text therefore succeeds, the answer is the 502 built from them, and no handler ever
  ends in an uncaught exception.
\<close>

theorem http_error_carries_response:
  "(raised w rt = Some (HTTPError m ro) \<longrightarrow>
      (\<exists>c r. ro = Some r \<and> (c, Returns r) \<in> set (snd (handle w rt))
             \<and> raise_for_status r = Inl (HTTPError m (Some r))
             \<and> fst (handle w rt) =
                 Response 502 (JObj [(''error'', JStr m), (''detail'', JStr (resp_text r))])))
   \<and> (\<forall>e. fst (handle w rt) \<noteq> Unhandled e)"
proof (cases rule: route_cases[of rt w])
  case (blank a)
  then show ?thesis by simp
next
  case health
  then show ?thesis by simp
next
  case (relayed u k)
  from relayed(1) have K: "\<forall>b e. k b = Inl e \<longrightarrow> \<not> is_HTTPError e" by blast
  have 1: "raised w rt = Some (HTTPError m ro) \<longrightarrow>
      (\<exists>c r. ro = Some r \<and> (c, Returns r) \<in> set (snd (handle w rt))
             \<and> raise_for_status r = Inl (HTTPError m (Some r))
             \<and> fst (handle w rt) =
                 Response 502 (JObj [(''error'', JStr m), (''detail'', JStr (resp_text r))]))"
  proof
    assume "raised w rt = Some (HTTPError m ro)"
    with relayed(4) have e: "fst (relay w u k) = Inl (HTTPError m ro)"
      by (simp split: sum.splits)
    from relay_http_error_response[OF K e]
    obtain c r where r: "ro = Some r" "(c, Returns r) \<in> set (snd (relay w u k))"
        "raise_for_status r = Inl (HTTPError m (Some r))"
      by blast
    from e r(1) have "fst (handle w rt) = Response 502 (JObj [(''error'', JStr m), (''detail'', JStr (resp_text r))])"
      by (simp add: relayed(3) catch_Inl)
    with r show "\<exists>c r. ro = Some r \<and> (c, Returns r) \<in> set (snd (handle w rt))
             \<and> raise_for_status r = Inl (HTTPError m (Some r))
             \<and> fst (handle w rt) =
                 Response 502 (JObj [(''error'', JStr m), (''detail'', JStr (resp_text r))])"
      by (auto simp: relayed(3) snd_catch)
  qed
  have 2: "\<forall>e. fst (handle w rt) \<noteq> Unhandled e"
  proof (cases "fst (relay w u k)")
    case (Inl e)
    show ?thesis
    proof (cases "is_HTTPError e")
      case True
      then obtain m' ro' where e: "e = HTTPError m' ro'" by (cases e) auto
      from relay_http_error_response[OF K Inl[unfolded e]]
      obtain r where "ro' = Some r" by blast
      with Inl e show ?thesis by (simp add: relayed(3) catch_Inl)
    next
      case False
      with Inl show ?thesis by (simp add: relayed(3) catch_Inl except_other)
    qed
  next
    case (Inr x)
    from relay_returns[OF Inr] obtain b where "k b = Inr x" by blast
    from relayed(2)[OF this] obtain j where "x = Response 200 j" by blast
    with Inr show ?thesis by (simp add: relayed(3) catch_Inr)
  qed
  from 1 2 show ?thesis by blast
qed

theorem http_error_carries_response_witness:
  "raised (world_of (Returns token_ok) (Returns not_found)) (ApiOrder ''42'') =
     Some (HTTPError ''404 Client Error: Not Found for url: https://org.crm.dynamics.com/'' (Some not_found))
   \<and> fst (handle (world_of (Returns token_ok) (Returns not_found)) (ApiOrder ''42'')) =
       Response 502 (JObj [(''error'', JStr ''404 Client Error: Not Found for url: https://org.crm.dynamics.com/''),
                           (''detail'', JStr ''no such table'')])"
proof -
  let ?w = "world_of (Returns token_ok) (Returns not_found)"
  let ?m = "''404 Client Error: Not Found for url: https://org.crm.dynamics.com/''"
  have r: "raised ?w (ApiOrder ''42'') = Some (HTTPError ?m (Some not_found))"
    by (simp add: unfolds world_of_def token_ok_def not_found_def raise_for_status_def dict_item_def)
  from http_error_carries_response[of ?w "ApiOrder ''42''" ?m "Some not_found"] r
  have "fst (handle ?w (ApiOrder ''42'')) =
       Response 502 (JObj [(''error'', JStr ?m), (''detail'', JStr (resp_text not_found))])"
    by blast
  then have "fst (handle ?w (ApiOrder ''42'')) =
       Response 502 (JObj [(''error'', JStr ?m), (''detail'', JStr ''no such table'')])"
    by (simp add: not_found_def)
  with r show ?thesis by blast
qed

section \<open>Other failures\<close>

text \<open>
  C4. For every request to \<open>/api/search\<close> or \<open>/api/order/<id>\<close>, an exception raised
  in the \<open>try\<close> body that is not an \<open>HTTPError\<close> is answered with 500 and a body whose
  only field is \<open>error\<close>, holding the message (no \<open>detail\<close>). An exception raised while
  every upstream response had a 2xx status is never an \<open>HTTPError\<close>; a call that fails
  (no connection, timeout) raises one that is not, and so does a body that is not JSON
  on a response that passed the status check.
\<close>

theorem other_failure_500:
  "(raised w rt = Some e \<and> \<not> is_HTTPError e \<longrightarrow>
      fst (handle w rt) = Response 500 (JObj [(''error'', JStr (str_exn e))]))
   \<and> (raised w rt = Some e
        \<and> (\<forall>c r. (c, Returns r) \<in> set (snd (handle w rt)) \<longrightarrow>
                    200 \<le> status_code r \<and> status_code r < 300) \<longrightarrow>
      \<not> is_HTTPError e)
   \<and> ((c, Fails m) \<in> set (snd (handle w rt)) \<longrightarrow> raised w rt = Some (RequestException m))
   \<and> ((c, Returns r) \<in> set (snd (handle w rt)) \<and> raise_for_status r = Inr () \<and> json r = Inl m \<longrightarrow>
        raised w rt = Some (JSONDecodeError m))"
proof (cases rule: route_cases[of rt w])
  case (blank a)
  then show ?thesis by simp
next
  case health
  then show ?thesis by simp
next
  case (relayed u k)
  from relayed(1) have K: "\<forall>b e. k b = Inl e \<longrightarrow> \<not> is_HTTPError e" by blast
  have 1: "raised w rt = Some e \<and> \<not> is_HTTPError e \<longrightarrow>
      fst (handle w rt) = Response 500 (JObj [(''error'', JStr (str_exn e))])"
  proof
    assume a: "raised w rt = Some e \<and> \<not> is_HTTPError e"
    with relayed(4) have "fst (relay w u k) = Inl e" by (simp split: sum.splits)
    with a show "fst (handle w rt) = Response 500 (JObj [(''error'', JStr (str_exn e))])"
      by (simp add: relayed(3) catch_Inl except_other)
  qed
  have 2: "raised w rt = Some e
        \<and> (\<forall>c r. (c, Returns r) \<in> set (snd (handle w rt)) \<longrightarrow>
                    200 \<le> status_code r \<and> status_code r < 300) \<longrightarrow>
      \<not> is_HTTPError e"
  proof
    assume a: "raised w rt = Some e
        \<and> (\<forall>c r. (c, Returns r) \<in> set (snd (handle w rt)) \<longrightarrow>
                    200 \<le> status_code r \<and> status_code r < 300)"
    show "\<not> is_HTTPError e"
    proof
      assume "is_HTTPError e"
      then obtain m' ro' where e: "e = HTTPError m' ro'" by (cases e) auto
      with a relayed(4) have "fst (relay w u k) = Inl (HTTPError m' ro')"
        by (simp split: sum.splits)
      from relay_http_error_response[OF K this]
      obtain c' r' where r': "(c', Returns r') \<in> set (snd (relay w u k))"
          "raise_for_status r' = Inl (HTTPError m' (Some r'))"
        by blast
      from r'(2) have "400 \<le> status_code r'" by (auto dest: raise_for_status_400)
      moreover from a r'(1) have "status_code r' < 300" by (simp add: relayed(3) snd_catch)
      ultimately show False by simp
    qed
  qed
  have 3: "(c, Fails m) \<in> set (snd (handle w rt)) \<longrightarrow> raised w rt = Some (RequestException m)"
    by (auto simp: relayed(3,4) snd_catch dest: relay_fails)
  have 4: "(c, Returns r) \<in> set (snd (handle w rt)) \<and> raise_for_status r = Inr () \<and> json r = Inl m \<longrightarrow>
        raised w rt = Some (JSONDecodeError m)"
    by (auto simp: relayed(3,4) snd_catch dest: relay_decode)
  from 1 2 3 4 show ?thesis by blast
qed

theorem other_failure_500_witness:
  "(Post (token_url (world_of (Fails ''timed out'') (Returns bad_json)))
         (token_data (world_of (Fails ''timed out'') (Returns bad_json))) 15, Fails ''timed out'')
     \<in> set (snd (handle (world_of (Fails ''timed out'') (Returns bad_json)) (ApiSearch [(''q'', ''x'')])))
   \<and> raised (world_of (Fails ''timed out'') (Returns bad_json)) (ApiSearch [(''q'', ''x'')]) =
       Some (RequestException ''timed out'')
   \<and> fst (handle (world_of (Fails ''timed out'') (Returns bad_json)) (ApiSearch [(''q'', ''x'')])) =
       Response 500 (JObj [(''error'', JStr ''timed out'')])
   \<and> snd (handle (world_of (Returns token_ok) (Returns bad_json)) (ApiOrder ''42'')) =
       [(Post (token_url (world_of (Returns token_ok) (Returns bad_json)))
              (token_data (world_of (Returns token_ok) (Returns bad_json))) 15, Returns token_ok),
        (Get (order_url (world_of (Returns token_ok) (Returns bad_json)) ''42'')
             (headers (world_of (Returns token_ok) (Returns bad_json)) (JStr ''tok'')) 20, Returns bad_json)]
   \<and> raised (world_of (Returns token_ok) (Returns bad_json)) (ApiOrder ''42'') =
       Some (JSONDecodeError ''Expecting value: line 1 column 1 (char 0)'')
   \<and> fst (handle (world_of (Returns token_ok) (Returns bad_json)) (ApiOrder ''42'')) =
       Response 500 (JObj [(''error'', JStr ''Expecting value: line 1 column 1 (char 0)'')])"
proof -
  let ?w1 = "world_of (Fails ''timed out'') (Returns bad_json)"
  let ?r1 = "ApiSearch [(''q'', ''x'')]"
  let ?c1 = "Post (token_url ?w1) (token_data ?w1) 15"
  let ?w2 = "world_of (Returns token_ok) (Returns bad_json)"
  let ?r2 = "ApiOrder ''42''"
  let ?c2 = "Get (order_url ?w2 ''42'') (headers ?w2 (JStr ''tok'')) 20"
  let ?m2 = "''Expecting value: line 1 column 1 (char 0)''"
  have q: "strip (args_get [(''q'', ''x'')] ''q'' '''') \<noteq> []"
    by (simp add: args_get_def strip_def isspace_def)
  have t1: "(?c1, Fails ''timed out'') \<in> set (snd (handle ?w1 ?r1))"
    by (simp add: search_valid[OF q] unfolds world_of_def)
  note A = other_failure_500[of ?w1 ?r1 "RequestException ''timed out''" ?c1 "''timed out''" bad_json]
  from A t1 have e1: "raised ?w1 ?r1 = Some (RequestException ''timed out'')" by blast
  from A e1 have f1: "fst (handle ?w1 ?r1) = Response 500 (JObj [(''error'', JStr ''timed out'')])"
    by simp
  have t2: "snd (handle ?w2 ?r2) =
       [(Post (token_url ?w2) (token_data ?w2) 15, Returns token_ok), (?c2, Returns bad_json)]"
    by (simp add: get_order_def unfolds world_of_def token_ok_def bad_json_def raise_for_status_def
        dict_item_def)
  have ok2: "raise_for_status bad_json = Inr ()" and j2: "json bad_json = Inl ?m2"
    by (simp_all add: bad_json_def raise_for_status_def)
  note B = other_failure_500[of ?w2 ?r2 "JSONDecodeError ?m2" ?c2 ?m2 bad_json]
  from t2 have m2: "(?c2, Returns bad_json) \<in> set (snd (handle ?w2 ?r2))" by simp
  from B m2 ok2 j2 have e2: "raised ?w2 ?r2 = Some (JSONDecodeError ?m2)" by blast
  have all2: "\<forall>c r. (c, Returns r) \<in> set (snd (handle ?w2 ?r2)) \<longrightarrow>
                 200 \<le> status_code r \<and> status_code r < 300"
    unfolding t2 by (auto simp: token_ok_def bad_json_def)
  from B e2 all2 have n2: "\<not> is_HTTPError (JSONDecodeError ?m2)" by blast
  from B e2 n2 have f2: "fst (handle ?w2 ?r2) = Response 500 (JObj [(''error'', JStr ?m2)])"
    by simp
  show ?thesis by (intro conjI) (fact t1 e1 f1 t2 e2 f2)+
qed

section \<open>The shape of a successful search\<close>

lemma sent_url_no_fragment: "CHR ''#'' \<notin> set u \<Longrightarrow> sent_url u = u"
  by (auto simp: sent_url_def takeWhile_eq_all_conv)

lemma url_query_append:
  assumes "CHR ''?'' \<in> set a"
  shows "suffix s (url_query (a @ s))"
proof -
  from assms have d: "dropWhile (\<lambda>c. c \<noteq> CHR ''?'') (a @ s) = dropWhile (\<lambda>c. c \<noteq> CHR ''?'') a @ s"
    by (rule dropWhile_append1[of "CHR ''?''"]) simp_all
  from assms have "dropWhile (\<lambda>c. c \<noteq> CHR ''?'') a \<noteq> []"
    by auto
  then obtain c cs where "dropWhile (\<lambda>c. c \<noteq> CHR ''?'') a = c # cs"
    by (cases "dropWhile (\<lambda>c. c \<noteq> CHR ''?'') a") auto
  with d have "url_query (a @ s) = cs @ s" by (simp add: url_query_def)
  then show ?thesis by (simp add: suffix_def)
qed

lemma query_top_50: "suffix ''&$top=50'' (url_query (endpoint w s f))"
proof -
  let ?a = "fstr_opt (DATAVERSE_URL w) @ ''/api/data/v9.2/'' @ TABLE_NAME w
       @ ''?$select='' @ s @ ''&$filter='' @ f"
  have e: "endpoint w s f = ?a @ ''&$top=50''" by (simp add: endpoint_def)
  have "CHR ''?'' \<in> set ?a" by simp
  then show ?thesis unfolding e by (rule url_query_append)
qed

lemma sent_query_top_50:
  "CHR ''#'' \<notin> set (endpoint w s f) \<Longrightarrow> suffix ''&$top=50'' (url_query (sent_url (endpoint w s f)))"
  using query_top_50[of w s f] by (simp add: sent_url_no_fragment)


lemma set_strip: "set (strip s) \<subseteq> set s"
proof -
  have "set (strip s) \<subseteq> set (rev (dropWhile isspace s))"
    unfolding strip_def set_rev by (auto dest: set_dropWhileD)
  also have "\<dots> \<subseteq> set s" by (auto dest: set_dropWhileD)
  finally show ?thesis .
qed

lemma set_spec_escape: "set (spec_escape q) \<subseteq> insert (CHR 0x27) (set q)"
  by (induction q) auto

lemma hash_free_filter:
  assumes "CHR ''#'' \<notin> set q"
  shows "CHR ''#'' \<notin> set (spec_filter (spec_field b) q)"
    and "CHR ''#'' \<notin> set (spec_filter ''cr399_cr1e1_no'' q)"
  using assms set_spec_escape[of q]
  by (auto simp: spec_filter_def spec_field_def quote_def)

lemma hash_free_select: "CHR ''#'' \<notin> set SELECT_COLS"
  by (simp add: SELECT_COLS_def select_col_names_def)

lemma hash_free_endpoint:
  assumes "CHR ''#'' \<notin> set (fstr_opt (DATAVERSE_URL w))" and "CHR ''#'' \<notin> set (TABLE_NAME w)"
      and "CHR ''#'' \<notin> set f"
  shows "CHR ''#'' \<notin> set (endpoint w SELECT_COLS f)"
  using assms hash_free_select by (simp add: endpoint_def)

text \<open>
  C6, as amended. The URL string every data call of \<open>/api/search\<close> hands to
  \<open>requests.get\<close> ends with \<open>&$top=50\<close>; when that string holds no \<open>#\<close> (as when neither
  the configured URL, the table name nor \<open>q\<close> holds one) the query that goes out ends with
  it too. For every successful request the body is \<open>{data, count}\<close>, where \<open>data\<close> is the
  \<open>value\<close> entry of the upstream JSON body as it came (the empty list when the key is
  absent) and \<open>count\<close> is its length. Nothing is cut: \<open>data\<close> has at most 50 elements
  exactly when the upstream sent at most 50.
\<close>

theorem search_success_shape:
  "(\<forall>u h t out. (Get u h t, out) \<in> set (snd (search w a)) \<longrightarrow> suffix ''&$top=50'' u)
   \<and> (\<forall>u h t out. (Get u h t, out) \<in> set (snd (search w a)) \<longrightarrow> CHR ''#'' \<notin> set u \<longrightarrow>
          suffix ''&$top=50'' (url_query (sent_url u)))
   \<and> (CHR ''#'' \<notin> set (fstr_opt (DATAVERSE_URL w)) \<and> CHR ''#'' \<notin> set (TABLE_NAME w)
        \<and> CHR ''#'' \<notin> set (args_get a ''q'' '''') \<longrightarrow>
        (\<forall>u h t out. (Get u h t, out) \<in> set (snd (search w a)) \<longrightarrow> CHR ''#'' \<notin> set u))
   \<and> (fst (search w a) = Response 200 body \<longrightarrow>
        (\<exists>p u h r kvs n.
            snd (search w a) = [p, (Get u h 20, Returns r)]
          \<and> suffix ''&$top=50'' u
          \<and> json r = Inr (JObj kvs)
          \<and> py_len (dict_get kvs ''value'' (JArr [])) = Inr n
          \<and> (\<forall>rows. dict_get kvs ''value'' (JArr []) = JArr rows \<longrightarrow> n = int (length rows))
          \<and> body = JObj [(''data'', dict_get kvs ''value'' (JArr [])), (''count'', JInt n)]))"
proof (cases "strip (args_get a ''q'' '''') = []")
  case True
  then show ?thesis by (simp add: search_invalid)
next
  case False
  let ?q = "strip (args_get a ''q'' '''')"
  let ?f = "if args_get a ''by'' ''name'' \<in> {''name'', ''external'', ''reference''}
            then spec_filter (spec_field (args_get a ''by'' ''name'')) ?q
            else spec_filter ''cr399_cr1e1_no'' ?q"
  let ?k = "\<lambda>body. case value_get body ''value'' (JArr []) of
                Inl e \<Rightarrow> Inl e
              | Inr records \<Rightarrow>
                  (case py_len records of
                     Inl e \<Rightarrow> Inl e
                   | Inr n \<Rightarrow> Inr (Response 200 (JObj [(''data'', records), (''count'', JInt n)])))"
  let ?T = "relay w (endpoint w SELECT_COLS ?f) ?k"
  have s: "search w a = catch (search_try w ?f)" by (rule search_valid[OF False])
  have s': "search w a = catch ?T" unfolding s search_try_relay ..
  have g: "\<And>u h t out. (Get u h t, out) \<in> set (snd (search w a)) \<Longrightarrow> u = endpoint w SELECT_COLS ?f"
    unfolding s using search_gets[of _ _ _ _ w ?f] by blast
  have 1: "\<forall>u h t out. (Get u h t, out) \<in> set (snd (search w a)) \<longrightarrow> suffix ''&$top=50'' u"
    using g suffix_top_50[of w SELECT_COLS ?f] by blast
  have sent: "\<forall>u h t out. (Get u h t, out) \<in> set (snd (search w a)) \<longrightarrow> CHR ''#'' \<notin> set u \<longrightarrow>
          suffix ''&$top=50'' (url_query (sent_url u))"
    using g sent_query_top_50[of w SELECT_COLS ?f] by blast
  have clean: "CHR ''#'' \<notin> set (fstr_opt (DATAVERSE_URL w)) \<and> CHR ''#'' \<notin> set (TABLE_NAME w)
        \<and> CHR ''#'' \<notin> set (args_get a ''q'' '''') \<longrightarrow>
        (\<forall>u h t out. (Get u h t, out) \<in> set (snd (search w a)) \<longrightarrow> CHR ''#'' \<notin> set u)"
  proof
    assume h: "CHR ''#'' \<notin> set (fstr_opt (DATAVERSE_URL w)) \<and> CHR ''#'' \<notin> set (TABLE_NAME w)
        \<and> CHR ''#'' \<notin> set (args_get a ''q'' '''')"
    with set_strip[of "args_get a ''q'' ''''"] have "CHR ''#'' \<notin> set ?q" by blast
    then have "CHR ''#'' \<notin> set ?f" using hash_free_filter[of ?q] by simp
    with h have "CHR ''#'' \<notin> set (endpoint w SELECT_COLS ?f)" by (simp add: hash_free_endpoint)
    with g show "\<forall>u h t out. (Get u h t, out) \<in> set (snd (search w a)) \<longrightarrow> CHR ''#'' \<notin> set u"
      by blast
  qed
  have 2: "fst (search w a) = Response 200 body \<longrightarrow>
        (\<exists>p u h r kvs n.
            snd (search w a) = [p, (Get u h 20, Returns r)]
          \<and> suffix ''&$top=50'' u
          \<and> json r = Inr (JObj kvs)
          \<and> py_len (dict_get kvs ''value'' (JArr [])) = Inr n
          \<and> (\<forall>rows. dict_get kvs ''value'' (JArr []) = JArr rows \<longrightarrow> n = int (length rows))
          \<and> body = JObj [(''data'', dict_get kvs ''value'' (JArr [])), (''count'', JInt n)])"
  proof
    assume ok: "fst (search w a) = Response 200 body"
    have T: "fst ?T = Inr (Response 200 body)"
    proof (cases "fst ?T")
      case (Inl e)
      with ok show ?thesis by (simp add: s' catch_Inl except_not_200)
    next
      case (Inr x)
      with ok show ?thesis by (simp add: s' catch_Inr)
    qed
    from relay_returns[OF T]
    obtain p tok r b where t: "snd ?T = [p, (Get (endpoint w SELECT_COLS ?f) (headers w tok) 20, Returns r)]"
        and b: "json r = Inr b" and k: "?k b = Inr (Response 200 body)"
      by blast
    from k obtain records n where v: "value_get b ''value'' (JArr []) = Inr records"
        and n: "py_len records = Inr n"
        and body: "body = JObj [(''data'', records), (''count'', JInt n)]"
      by (auto split: sum.splits)
    from v obtain kvs where kvs: "b = JObj kvs" "records = dict_get kvs ''value'' (JArr [])"
      by (rule value_get_Inr)
    have len: "\<forall>rows. dict_get kvs ''value'' (JArr []) = JArr rows \<longrightarrow> n = int (length rows)"
      using n kvs(2) by auto
    from t have t': "snd (search w a) = [p, (Get (endpoint w SELECT_COLS ?f) (headers w tok) 20, Returns r)]"
      by (simp add: s' snd_catch)
    from t' suffix_top_50[of w SELECT_COLS ?f] b kvs n len body
    show "\<exists>p u h r kvs n.
            snd (search w a) = [p, (Get u h 20, Returns r)]
          \<and> suffix ''&$top=50'' u
          \<and> json r = Inr (JObj kvs)
          \<and> py_len (dict_get kvs ''value'' (JArr [])) = Inr n
          \<and> (\<forall>rows. dict_get kvs ''value'' (JArr []) = JArr rows \<longrightarrow> n = int (length rows))
          \<and> body = JObj [(''data'', dict_get kvs ''value'' (JArr [])), (''count'', JInt n)]"
      by blast
  qed
  from 1 sent clean 2 show ?thesis by blast
qed


theorem search_success_shape_witness:
  "(Get (search_url (spec_filter ''cr399_cr1e1_no'' ''x'')) token_headers 20, Returns (rows_ok [row1, row2]))
     \<in> set (snd (search (world_of (Returns token_ok) (Returns (rows_ok [row1, row2]))) [(''q'', ''x'')]))
   \<and> suffix ''&$top=50'' (search_url (spec_filter ''cr399_cr1e1_no'' ''x''))
   \<and> CHR ''#'' \<notin> set (fstr_opt (DATAVERSE_URL (world_of (Returns token_ok) (Returns (rows_ok [row1, row2])))))
   \<and> CHR ''#'' \<notin> set (TABLE_NAME (world_of (Returns token_ok) (Returns (rows_ok [row1, row2]))))
   \<and> CHR ''#'' \<notin> set (args_get [(''q'', ''x'')] ''q'' '''')
   \<and> CHR ''#'' \<notin> set (search_url (spec_filter ''cr399_cr1e1_no'' ''x''))
   \<and> suffix ''&$top=50'' (url_query (sent_url (search_url (spec_filter ''cr399_cr1e1_no'' ''x''))))
   \<and> fst (search (world_of (Returns token_ok) (Returns (rows_ok [row1, row2]))) [(''q'', ''x'')]) =
       Response 200 (JObj [(''data'', JArr [row1, row2]), (''count'', JInt 2)])
   \<and> (\<exists>p u h r kvs n.
          snd (search (world_of (Returns token_ok) (Returns (rows_ok [row1, row2]))) [(''q'', ''x'')]) =
            [p, (Get u h 20, Returns r)]
        \<and> suffix ''&$top=50'' u
        \<and> json r = Inr (JObj kvs)
        \<and> py_len (dict_get kvs ''value'' (JArr [])) = Inr n
        \<and> JObj [(''data'', JArr [row1, row2]), (''count'', JInt 2)] =
            JObj [(''data'', dict_get kvs ''value'' (JArr [])), (''count'', JInt n)])"
proof -
  let ?w = "world_of (Returns token_ok) (Returns (rows_ok [row1, row2]))"
  let ?a = "[(''q'', ''x'')]"
  let ?u = "search_url (spec_filter ''cr399_cr1e1_no'' ''x'')"
  let ?body = "JObj [(''data'', JArr [row1, row2]), (''count'', JInt 2)]"
  have q: "strip (args_get ?a ''q'' '''') \<noteq> []"
    by (simp add: world_evals)
  have mem: "(Get ?u token_headers 20, Returns (rows_ok [row1, row2])) \<in> set (snd (search ?w ?a))"
    by (simp add: search_valid[OF q] unfolds world_evals)
  have ok: "fst (search ?w ?a) = Response 200 ?body"
    by (simp add: search_valid[OF q] unfolds world_evals)
  have c1: "CHR ''#'' \<notin> set (fstr_opt (DATAVERSE_URL ?w))"
    by (simp add: world_evals)
  have c2: "CHR ''#'' \<notin> set (TABLE_NAME ?w)"
    by (simp add: world_evals)
  have c3: "CHR ''#'' \<notin> set (args_get ?a ''q'' '''')"
    by (simp add: args_get_def)
  note inst = search_success_shape[of ?w ?a ?body]
  from inst mem have 1: "suffix ''&$top=50'' ?u"
    by blast
  from inst c1 c2 c3 mem have 2: "CHR ''#'' \<notin> set ?u"
    by blast
  from inst mem 2 have 3: "suffix ''&$top=50'' (url_query (sent_url ?u))"
    by blast
  from inst ok have 4: "\<exists>p u h r kvs n.
          snd (search ?w ?a) = [p, (Get u h 20, Returns r)]
        \<and> suffix ''&$top=50'' u
        \<and> json r = Inr (JObj kvs)
        \<and> py_len (dict_get kvs ''value'' (JArr [])) = Inr n
        \<and> ?body = JObj [(''data'', dict_get kvs ''value'' (JArr [])), (''count'', JInt n)]"
    by blast
  show ?thesis by (intro conjI) (fact mem 1 c1 c2 c3 2 3 ok 4)+
qed

text \<open>
  C6 as stated bounds \<open>data\<close> by 50 elements and has every outbound query carry
  \<open>$top=50\<close>. An upstream that answers with 51 rows gets all 51 relayed, with \<open>count\<close> 51.
  And \<open>q\<close> goes into the URL unencoded: with \<open>q = x#\<close> the search succeeds while
  everything after the \<open>#\<close>, \<open>$top=50\<close> included, is a fragment that is never sent.
\<close>

theorem row_cap_and_fragment_counterexample:
  "fst (search (world_of (Returns token_ok) (Returns (rows_ok (replicate 51 row1)))) [(''q'', ''x'')]) =
     Response 200 (JObj [(''data'', JArr (replicate 51 row1)), (''count'', JInt 51)])
   \<and> length (replicate 51 row1) = 51
   \<and> \<not> length (replicate 51 row1) \<le> 50
   \<and> search (world_of (Returns token_ok) (Returns (rows_ok [row1]))) [(''q'', ''x#'')] =
       (Response 200 (JObj [(''data'', JArr [row1]), (''count'', JInt 1)]),
        [(token_request, Returns token_ok),
         (Get (search_url (''contains(cr399_cr1e1_no,'x#')'')) token_headers 20, Returns (rows_ok [row1]))])
   \<and> sent_url (search_url (''contains(cr399_cr1e1_no,'x#')'')) =
       ''https://org.crm.dynamics.com/api/data/v9.2/cr399_tables?$select='' @ SELECT_COLS
         @ ''&$filter=contains(cr399_cr1e1_no,'x''
   \<and> \<not> sublist ''$top'' (sent_url (search_url (''contains(cr399_cr1e1_no,'x#')'')))"
proof -
  have q: "strip (args_get [(''q'', ''x'')] ''q'' '''') \<noteq> []"
    by (simp add: world_evals)
  have rows: "fst (search (world_of (Returns token_ok) (Returns (rows_ok (replicate 51 row1)))) [(''q'', ''x'')]) =
     Response 200 (JObj [(''data'', JArr (replicate 51 row1)), (''count'', JInt 51)])"
    by (simp add: search_valid[OF q] unfolds world_evals)
  have len: "length (replicate 51 row1) = 51" and cap: "\<not> length (replicate 51 row1) \<le> 50"
    by simp_all
  have q': "strip (args_get [(''q'', ''x#'')] ''q'' '''') \<noteq> []"
    by (simp add: world_evals)
  have frag: "search (world_of (Returns token_ok) (Returns (rows_ok [row1]))) [(''q'', ''x#'')] =
       (Response 200 (JObj [(''data'', JArr [row1]), (''count'', JInt 1)]),
        [(token_request, Returns token_ok),
         (Get (search_url (''contains(cr399_cr1e1_no,'x#')'')) token_headers 20, Returns (rows_ok [row1]))])"
    by (simp add: search_valid[OF q'] unfolds world_evals)
  have sent: "sent_url (search_url (''contains(cr399_cr1e1_no,'x#')'')) =
       ''https://org.crm.dynamics.com/api/data/v9.2/cr399_tables?$select='' @ SELECT_COLS
         @ ''&$filter=contains(cr399_cr1e1_no,'x''"
    by (simp add: sent_url_def search_url_def SELECT_COLS_def select_col_names_def)
  have no_top: "\<not> sublist ''$top'' (sent_url (search_url (''contains(cr399_cr1e1_no,'x#')'')))"
    unfolding sent
    by (simp add: SELECT_COLS_def select_col_names_def sublist_code)
  show ?thesis by (intro conjI) (fact rows len cap frag sent no_top)+
qed

end
